theory Spec2Isabelle
  imports Complex_Main "HOL-Library.Multiset"
begin

section \<open>Python values used by benchmarks.py\<close>

subsection \<open>Integers, ranges, lists\<close>

text \<open>
  Python integers are unbounded, so they are \<^typ>\<open>int\<close>.  A list index that is out of
  range raises \<open>IndexError\<close>, and a true division of integers raises
  \<open>ZeroDivisionError\<close> or \<open>OverflowError\<close>; a call made when the interpreter allows no further
  frame raises \<open>RecursionError\<close>.  The model returns the exception as a value.
\<close>

datatype py_error = IndexError | ZeroDivisionError | OverflowError | RecursionError

text \<open>
  \<open>range(a, b)\<close> yields \<open>a, a + 1, ..., b - 1\<close> and nothing when \<open>b \<le> a\<close>;
  \<open>range(b)\<close> is \<open>range(0, b)\<close>.
\<close>

definition py_range :: "int \<Rightarrow> int \<Rightarrow> int list" where
  "py_range a b = [a..b - 1]"

text \<open>
  \<open>xs[i]\<close> and \<open>xs[i] = v\<close> on a Python list: a negative index counts from the end, and
  an index outside \<open>-len(xs) \<le> i < len(xs)\<close> raises \<open>IndexError\<close>.
\<close>

definition list_getitem :: "'a list \<Rightarrow> int \<Rightarrow> py_error + 'a" where
  "list_getitem xs index =
     (let n = int (length xs);
          pos = (if index < 0 then index + n else index)
      in if pos < 0 \<or> n \<le> pos then Inl IndexError else Inr (xs ! nat pos))"

definition list_setitem :: "'a list \<Rightarrow> int \<Rightarrow> 'a \<Rightarrow> py_error + 'a list" where
  "list_setitem xs index v =
     (let n = int (length xs);
          pos = (if index < 0 then index + n else index)
      in if pos < 0 \<or> n \<le> pos then Inl IndexError else Inr (xs[nat pos := v]))"

text \<open>
  A \<open>for\<close> loop over a list of indices whose body may raise: the first error ends the
  loop and is the result.
\<close>

fun for_loop :: "'i list \<Rightarrow> ('i \<Rightarrow> 's \<Rightarrow> py_error + 's) \<Rightarrow> 's \<Rightarrow> py_error + 's" where
  "for_loop [] body s = Inr s"
| "for_loop (i # is) body s =
     (case body i s of Inl e \<Rightarrow> Inl e | Inr s' \<Rightarrow> for_loop is body s')"

subsection \<open>Text\<close>

text \<open>
  \<open>str(i)\<close> and \<open>f"{i}"\<close> of an integer: its decimal digits, after a minus sign when it
  is negative.
\<close>

definition digit_char :: "int \<Rightarrow> char" where
  "digit_char d = ''0123456789'' ! nat d"

function str_digits :: "int \<Rightarrow> string" where
  "str_digits n =
     (if n < 10 then [digit_char n] else str_digits (n div 10) @ [digit_char (n mod 10)])"
  by pat_completeness auto
termination
  by (relation "measure nat") auto

declare str_digits.simps [simp del]

definition str_int :: "int \<Rightarrow> string" where
  "str_int i = (if i < 0 then CHR ''-'' # str_digits (- i) else str_digits i)"

text \<open>\<open>sub in s\<close> on strings: \<open>sub\<close> occurs in \<open>s\<close> as a contiguous substring.\<close>

fun starts_with :: "string \<Rightarrow> string \<Rightarrow> bool" where
  "starts_with [] s = True"
| "starts_with (c # cs) [] = False"
| "starts_with (c # cs) (d # ds) = (c = d \<and> starts_with cs ds)"

fun str_contains :: "string \<Rightarrow> string \<Rightarrow> bool" where
  "str_contains sub [] = starts_with sub []"
| "str_contains sub (c # cs) = (starts_with sub (c # cs) \<or> str_contains sub cs)"

subsection \<open>True division and fixed-point formatting\<close>

text \<open>
  \<open>a / b\<close> on integers is the binary64 number nearest to the exact quotient (ties to the
  even significand), \<open>OverflowError\<close> when that is beyond the binary64 range, and
  \<open>ZeroDivisionError\<close> when \<open>b\<close> is 0.  A binary64 number is a rational, so the model
  computes with \<^typ>\<open>rat\<close>: \<open>floor_log2 q\<close> is the exponent of \<open>q\<close>, the unit in the last
  place is \<open>2 ^ (max exponent (-1022) - 52)\<close>, and the quotient is rounded to a multiple
  of it.  \<open>f"{x:.1f}"\<close> is \<open>x\<close> rounded to one decimal place, ties to the even digit,
  with the sign of \<open>x\<close>.
\<close>

function bit_length :: "int \<Rightarrow> int" where
  "bit_length n = (if n \<le> 0 then 0 else bit_length (n div 2) + 1)"
  by pat_completeness auto
termination
  by (relation "measure nat") auto

declare bit_length.simps [simp del]

definition pow2 :: "int \<Rightarrow> rat" where
  "pow2 e = (if 0 \<le> e then 2 ^ nat e else 1 / 2 ^ nat (- e))"

definition round_half_even :: "rat \<Rightarrow> int" where
  "round_half_even q =
     (let f = \<lfloor>q\<rfloor>; r = q - of_int f
      in if r < 1 / 2 then f else if 1 / 2 < r then f + 1 else if even f then f else f + 1)"

definition floor_log2 :: "rat \<Rightarrow> int" where
  "floor_log2 q =
     (let (a, b) = quotient_of \<bar>q\<bar>;
          e = bit_length a - bit_length b
      in if pow2 e \<le> \<bar>q\<bar> then e else e - 1)"

definition round_binary64 :: "rat \<Rightarrow> rat" where
  "round_binary64 q =
     (if q = 0 then 0
      else let ulp = pow2 (max (floor_log2 q) (- 1022) - 52)
           in of_int (round_half_even (q / ulp)) * ulp)"

definition int_truediv :: "int \<Rightarrow> int \<Rightarrow> py_error + rat" where
  "int_truediv a b =
     (if b = 0 then Inl ZeroDivisionError
      else let x = round_binary64 (of_int a / of_int b)
           in if pow2 1024 \<le> \<bar>x\<bar> then Inl OverflowError else Inr x)"

definition format_1f :: "rat \<Rightarrow> string" where
  "format_1f x =
     (let k = round_half_even (\<bar>x\<bar> * 10)
      in (if x < 0 then ''-'' else []) @ str_digits (k div 10) @ ''.'' @ str_digits (k mod 10))"

section \<open>Clock and BenchmarkTimer\<close>

text \<open>
  \<^verbatim>\<open>
  def get_time_microseconds():
      return int(time.time() * 1000000)

  class BenchmarkTimer:
      def __init__(self):
          self.start_time = 0
          self.end_time = 0
          self.duration = 0
      def start(self):
          self.start_time = get_time_microseconds()
      def end(self):
          self.end_time = get_time_microseconds()
          self.duration = self.end_time - self.start_time
          return self.duration
  \<close>
  \<open>time.time()\<close> is the system's wall clock, which can be set back between two calls; the
  code puts nothing between that clock and its readings but a scaling and a truncation.
  The clock is therefore the environment of the program: \<open>clock n\<close> is the integer that
  the \<open>n\<close>-th call of \<open>get_time_microseconds\<close> of a run returns (counting from 0), with no
  constraint, and the number of calls made so far is threaded through the run.
\<close>

definition get_time_microseconds :: "(nat \<Rightarrow> int) \<Rightarrow> nat \<Rightarrow> int \<times> nat" where
  "get_time_microseconds clock reads = (clock reads, Suc reads)"

record BenchmarkTimer =
  start_time :: int
  end_time :: int
  duration :: int

definition BenchmarkTimer_init :: BenchmarkTimer where
  "BenchmarkTimer_init = \<lparr>start_time = 0, end_time = 0, duration = 0\<rparr>"

definition BenchmarkTimer_start ::
  "(nat \<Rightarrow> int) \<Rightarrow> BenchmarkTimer \<Rightarrow> nat \<Rightarrow> BenchmarkTimer \<times> nat" where
  "BenchmarkTimer_start clock self reads =
     (let (t, reads) = get_time_microseconds clock reads
      in (self\<lparr>start_time := t\<rparr>, reads))"

definition BenchmarkTimer_end ::
  "(nat \<Rightarrow> int) \<Rightarrow> BenchmarkTimer \<Rightarrow> nat \<Rightarrow> int \<times> BenchmarkTimer \<times> nat" where
  "BenchmarkTimer_end clock self reads =
     (let (t, reads) = get_time_microseconds clock reads;
          self = self\<lparr>end_time := t\<rparr>;
          self = self\<lparr>duration := end_time self - start_time self\<rparr>
      in (duration self, self, reads))"

section \<open>DynamicArray\<close>

text \<open>
  \<^verbatim>\<open>
  class DynamicArray:
      def __init__(self, initial_capacity=1000):
          self.data = []
          self.capacity = initial_capacity
      def push(self, value):
          self.data.append(value)
          if len(self.data) > self.capacity:
              self.capacity *= 2
      def __len__(self):
          return len(self.data)
      def __getitem__(self, index):
          return self.data[index]
      def __setitem__(self, index, value):
          self.data[index] = value
  \<close>
  The methods are stated on the record scheme, so that a frame property can speak of
  every other field an object may carry.
\<close>

record 'a DynamicArray =
  data :: "'a list"
  capacity :: int

definition DynamicArray_init :: "int \<Rightarrow> 'a DynamicArray" where
  "DynamicArray_init initial_capacity =
     \<lparr>DynamicArray.data = [], DynamicArray.capacity = initial_capacity\<rparr>"

definition DynamicArray_push ::
  "'a \<Rightarrow> ('a, 'm) DynamicArray_scheme \<Rightarrow> ('a, 'm) DynamicArray_scheme" where
  "DynamicArray_push v self =
     (let self = self\<lparr>DynamicArray.data := DynamicArray.data self @ [v]\<rparr>
      in if int (length (DynamicArray.data self)) > DynamicArray.capacity self
         then self\<lparr>DynamicArray.capacity := DynamicArray.capacity self * 2\<rparr>
         else self)"

definition DynamicArray_len :: "('a, 'm) DynamicArray_scheme \<Rightarrow> int" where
  "DynamicArray_len self = int (length (DynamicArray.data self))"

definition DynamicArray_getitem :: "('a, 'm) DynamicArray_scheme \<Rightarrow> int \<Rightarrow> py_error + 'a" where
  "DynamicArray_getitem self index = list_getitem (DynamicArray.data self) index"

definition DynamicArray_setitem ::
  "('a, 'm) DynamicArray_scheme \<Rightarrow> int \<Rightarrow> 'a \<Rightarrow> py_error + ('a, 'm) DynamicArray_scheme" where
  "DynamicArray_setitem self index v =
     (case list_setitem (DynamicArray.data self) index v of
        Inl e \<Rightarrow> Inl e
      | Inr xs \<Rightarrow> Inr (self\<lparr>DynamicArray.data := xs\<rparr>))"

section \<open>DynamicString\<close>

text \<open>
  \<^verbatim>\<open>
  class DynamicString:
      def __init__(self, initial_capacity=1000):
          self.data = ""
          self.capacity = initial_capacity
      def append(self, value):
          self.data += value
          if len(self.data) > self.capacity:
              self.capacity *= 2
      def __len__(self):
          return len(self.data)
      def __str__(self):
          return self.data
  \<close>
  Every string the program builds is ASCII, so a \<^typ>\<open>string\<close> has one \<^typ>\<open>char\<close> for
  each character Python counts.
\<close>

record DynamicString =
  data :: string
  capacity :: int

definition DynamicString_init :: "int \<Rightarrow> DynamicString" where
  "DynamicString_init initial_capacity =
     \<lparr>DynamicString.data = [], DynamicString.capacity = initial_capacity\<rparr>"

definition DynamicString_append :: "string \<Rightarrow> 'm DynamicString_scheme \<Rightarrow> 'm DynamicString_scheme" where
  "DynamicString_append v self =
     (let self = self\<lparr>DynamicString.data := DynamicString.data self @ v\<rparr>
      in if int (length (DynamicString.data self)) > DynamicString.capacity self
         then self\<lparr>DynamicString.capacity := DynamicString.capacity self * 2\<rparr>
         else self)"

definition DynamicString_len :: "'m DynamicString_scheme \<Rightarrow> int" where
  "DynamicString_len self = int (length (DynamicString.data self))"

definition DynamicString_str :: "'m DynamicString_scheme \<Rightarrow> string" where
  "DynamicString_str self = DynamicString.data self"

section \<open>bubble\_sort\<close>

text \<open>
  \<^verbatim>\<open>
  def bubble_sort(arr):
      for i in range(len(arr) - 1):
          for j in range(len(arr) - i - 1):
              if arr[j] > arr[j + 1]:
                  arr[j], arr[j + 1] = arr[j + 1], arr[j]
  \<close>
  The list is mutated in place; the model returns the list as it is when the function
  returns, or the error an index raised.  The tuple assignment reads \<open>arr[j + 1]\<close> and
  \<open>arr[j]\<close> first and then stores them at \<open>j\<close> and \<open>j + 1\<close>, in that order.
\<close>

definition bubble_sort_body :: "int \<Rightarrow> int list \<Rightarrow> py_error + int list" where
  "bubble_sort_body j arr =
     (case list_getitem arr j of Inl e \<Rightarrow> Inl e | Inr x \<Rightarrow>
      case list_getitem arr (j + 1) of Inl e \<Rightarrow> Inl e | Inr y \<Rightarrow>
      if x > y then
        (case list_getitem arr (j + 1) of Inl e \<Rightarrow> Inl e | Inr r1 \<Rightarrow>
         case list_getitem arr j of Inl e \<Rightarrow> Inl e | Inr r2 \<Rightarrow>
         case list_setitem arr j r1 of Inl e \<Rightarrow> Inl e | Inr arr1 \<Rightarrow>
         list_setitem arr1 (j + 1) r2)
      else Inr arr)"

definition bubble_sort :: "int list \<Rightarrow> py_error + int list" where
  "bubble_sort arr =
     for_loop (py_range 0 (int (length arr) - 1))
       (\<lambda>i arr. for_loop (py_range 0 (int (length arr) - i - 1)) bubble_sort_body arr) arr"

section \<open>fibonacci\<close>

text \<open>
  \<^verbatim>\<open>
  def fibonacci(n):
      if n <= 1:
          return n
      return fibonacci(n - 1) + fibonacci(n - 2)
  \<close>
\<close>

text \<open>
  Every call of \<open>fibonacci\<close> takes one frame of the interpreter, which is returned when the
  call ends, so the frames in use at any moment are those of one chain of nested calls.
  The interpreter allows \<open>sys.getrecursionlimit()\<close> frames and raises \<open>RecursionError\<close> at
  a call made when they are all in use.  \<open>frames\<close> is the number of frames still allowed
  when \<open>fibonacci\<close> is called: the limit less the depth of the caller.  In the sum the
  left call is made first, and an exception raised by it ends the whole call.
\<close>

fun fibonacci :: "nat \<Rightarrow> int \<Rightarrow> py_error + int" where
  "fibonacci 0 n = Inl RecursionError"
| "fibonacci (Suc frames) n =
     (if n \<le> 1 then Inr n
      else case fibonacci frames (n - 1) of Inl e \<Rightarrow> Inl e | Inr a \<Rightarrow>
           case fibonacci frames (n - 2) of Inl e \<Rightarrow> Inl e | Inr b \<Rightarrow> Inr (a + b))"

text \<open>
  The recursion limit of the interpreter as shipped; \<open>benchmarks.py\<close> imports \<open>sys\<close> but
  never calls \<open>sys.setrecursionlimit\<close>.
\<close>

definition recursion_limit :: nat where
  "recursion_limit = 1000"

section \<open>Benchmark 1: simple loop\<close>

text \<open>
  \<^verbatim>\<open>
  sum_val = 0
  for i in range(1, 1000001):
      sum_val += i
  \<close>
\<close>

definition sum_loop :: "int list \<Rightarrow> int \<Rightarrow> int" where
  "sum_loop is sum_val = fold (\<lambda>i s. s + i) is sum_val"

definition simple_loop :: int where
  "simple_loop = sum_loop (py_range 1 1000001) 0"

section \<open>Benchmark 8: array sorting\<close>

text \<open>
  \<^verbatim>\<open>
  sort_arr = []
  for i in range(1, 10001):
      sort_arr.append(10000 - i)
  bubble_sort(sort_arr)
  ... First: {sort_arr[0]}, Last: {sort_arr[9999]}
  \<close>
\<close>

definition sort_arr_build :: "int list \<Rightarrow> int list \<Rightarrow> int list" where
  "sort_arr_build is sort_arr = fold (\<lambda>i sort_arr. sort_arr @ [10000 - i]) is sort_arr"

definition sort_arr_input :: "int list" where
  "sort_arr_input = sort_arr_build (py_range 1 10001) []"

definition array_sorting :: "py_error + int list" where
  "array_sorting = bubble_sort sort_arr_input"

definition sort_first :: "py_error + int" where
  "sort_first = (case array_sorting of Inl e \<Rightarrow> Inl e | Inr sort_arr \<Rightarrow> list_getitem sort_arr 0)"

definition sort_last :: "py_error + int" where
  "sort_last = (case array_sorting of Inl e \<Rightarrow> Inl e | Inr sort_arr \<Rightarrow> list_getitem sort_arr 9999)"

section \<open>Benchmark 10: memory operations\<close>

text \<open>
  \<^verbatim>\<open>
  mem_arr = DynamicArray(1000)
  for i in range(1, 10001):
      mem_arr.push(i)
      if len(mem_arr) > 5000:
          mem_arr = DynamicArray(1000)
  ... Final Length: {len(mem_arr)}
  \<close>
\<close>

definition memory_body :: "int \<Rightarrow> int DynamicArray \<Rightarrow> int DynamicArray" where
  "memory_body i mem_arr =
     (let mem_arr = DynamicArray_push i mem_arr
      in if DynamicArray_len mem_arr > 5000 then DynamicArray_init 1000 else mem_arr)"

definition memory_operations :: "int DynamicArray" where
  "memory_operations = fold memory_body (py_range 1 10001) (DynamicArray_init 1000)"

section \<open>Benchmarks 2 to 7 and 9\<close>

text \<open>
  \<^verbatim>\<open>
  str_result = DynamicString(1000)
  total_len = 0
  for i in range(1, 10001):
      num_str = str(i)
      str_result.append(num_str)
      total_len += len(num_str)
  \<close>
\<close>

definition string_body :: "int \<Rightarrow> DynamicString \<times> int \<Rightarrow> DynamicString \<times> int" where
  "string_body i =
     (\<lambda>(str_result, total_len).
        let num_str = str_int i;
            str_result = DynamicString_append num_str str_result
        in (str_result, total_len + int (length num_str)))"

definition string_concatenation :: "DynamicString \<times> int" where
  "string_concatenation = fold string_body (py_range 1 10001) (DynamicString_init 1000, 0)"

text \<open>
  \<^verbatim>\<open>
  arr = DynamicArray(1000)
  for i in range(1, 100001):
      arr.push(i)
  \<close>
\<close>

definition array_creation :: "int DynamicArray" where
  "array_creation = fold (\<lambda>i arr. DynamicArray_push i arr) (py_range 1 100001) (DynamicArray_init 1000)"

text \<open>
  \<^verbatim>\<open>
  result = 0
  for i in range(1, 100001):
      result += (i * i) // 2
  \<close>
  Python's \<open>//\<close> rounds towards minus infinity, as \<open>div\<close> does on \<^typ>\<open>int\<close>.
\<close>

definition math_operations :: int where
  "math_operations = fold (\<lambda>i result. result + (i * i) div 2) (py_range 1 100001) 0"

text \<open>
  \<^verbatim>\<open>
  test_func = lambda x: x * x
  for i in range(1, 100001):
      result = test_func(i)
  \<close>
\<close>

definition test_func :: "int \<Rightarrow> int" where
  "test_func x = x * x"

definition function_calls :: "int \<Rightarrow> int" where
  "function_calls result = fold (\<lambda>i result. test_func i) (py_range 1 100001) result"

text \<open>
  \<^verbatim>\<open>
  nested_sum = 0
  for i in range(1, 1001):
      for j in range(1, 1001):
          nested_sum += i + j
  \<close>
\<close>

definition nested_loop :: int where
  "nested_loop =
     fold (\<lambda>i nested_sum. fold (\<lambda>j nested_sum. nested_sum + (i + j)) (py_range 1 1001) nested_sum)
       (py_range 1 1001) 0"

text \<open>
  \<^verbatim>\<open>
  search_text = DynamicString(1000)
  for i in range(1, 100001):
      search_text.append("abc")
  search_count = 0
  for i in range(1, 1001):
      if "abc" in str(search_text):
          search_count += 1
  \<close>
\<close>

definition search_text_build :: DynamicString where
  "search_text_build =
     fold (\<lambda>i search_text. DynamicString_append ''abc'' search_text) (py_range 1 100001)
       (DynamicString_init 1000)"

definition string_search :: int where
  "string_search =
     (let search_text = search_text_build
      in fold (\<lambda>i search_count.
                 if str_contains ''abc'' (DynamicString_str search_text) then search_count + 1
                 else search_count)
           (py_range 1 1001) 0)"

text \<open>
  \<^verbatim>\<open>fib_result = fibonacci(20)\<close>
  The call is made by \<open>main\<close>, itself called by the module: two frames are in use.
\<close>

definition recursive_functions :: "py_error + int" where
  "recursive_functions = fibonacci (recursion_limit - 2) 20"

section \<open>main\<close>

text \<open>
  The run of \<open>main\<close> against a clock: the texts of its \<open>print\<close> calls in order (each is
  followed by a newline on standard output), and the exception that ended it, if any.
  One \<open>BenchmarkTimer\<close> is created and reused; every benchmark is bracketed by
  \<open>timer.start()\<close> and \<open>timer.end()\<close>, and its report is printed right after.
  \<^verbatim>\<open>
  print(f"Simple Loop (1M): {loop_time} microseconds, Sum: {sum_val}")
  print(f"String Concatenation (10K): {string_time} microseconds, Length: {total_len}")
  print(f"Array Creation (100K): {array_time} microseconds, Length: {len(arr)}")
  print(f"Math Operations (100K): {math_time} microseconds, Result: {result}")
  print(f"Function Calls (100K): {func_time} microseconds")
  print(f"Nested Loop (1K x 1K): {nested_time} microseconds, Sum: {nested_sum}")
  print(f"String Search (100K): {search_time} microseconds, Found: {search_count}")
  print(f"Array Sorting (10K): {sort_time} microseconds, First: {sort_arr[0]}, Last: {sort_arr[9999]}")
  print(f"Recursive Functions (1K): {recursive_time} microseconds, Fib(20): {fib_result}")
  print(f"Memory Operations (10K): {memory_time} microseconds, Final Length: {len(mem_arr)}")
  ...
  total_time = (loop_time + string_time + array_time + math_time + func_time +
                nested_time + search_time + sort_time + recursive_time + memory_time)
  print(f"\nTotal Benchmark Time: {total_time} microseconds")
  print(f"Total Benchmark Time: {total_time / 1000:.1f} milliseconds")
  \<close>
\<close>

definition main :: "(nat \<Rightarrow> int) \<Rightarrow> string list \<times> py_error option" where
  "main clock =
     (let out = [''=== PYTHON STANDARDIZED BENCHMARK SUITE ==='',
                 ''Testing identical operations across all languages'' @ [CHR 0x0A]];
          timer = BenchmarkTimer_init;
          reads = 0;
          (timer, reads) = BenchmarkTimer_start clock timer reads;
          sum_val = simple_loop;
          (loop_time, timer, reads) = BenchmarkTimer_end clock timer reads;
          out = out @ [''Simple Loop (1M): '' @ str_int loop_time @ '' microseconds, Sum: ''
                       @ str_int sum_val];
          (timer, reads) = BenchmarkTimer_start clock timer reads;
          (str_result, total_len) = string_concatenation;
          (string_time, timer, reads) = BenchmarkTimer_end clock timer reads;
          out = out @ [''String Concatenation (10K): '' @ str_int string_time
                       @ '' microseconds, Length: '' @ str_int total_len];
          (timer, reads) = BenchmarkTimer_start clock timer reads;
          arr = array_creation;
          (array_time, timer, reads) = BenchmarkTimer_end clock timer reads;
          out = out @ [''Array Creation (100K): '' @ str_int array_time
                       @ '' microseconds, Length: '' @ str_int (DynamicArray_len arr)];
          (timer, reads) = BenchmarkTimer_start clock timer reads;
          result = math_operations;
          (math_time, timer, reads) = BenchmarkTimer_end clock timer reads;
          out = out @ [''Math Operations (100K): '' @ str_int math_time
                       @ '' microseconds, Result: '' @ str_int result];
          (timer, reads) = BenchmarkTimer_start clock timer reads;
          result = function_calls result;
          (func_time, timer, reads) = BenchmarkTimer_end clock timer reads;
          out = out @ [''Function Calls (100K): '' @ str_int func_time @ '' microseconds''];
          (timer, reads) = BenchmarkTimer_start clock timer reads;
          nested_sum = nested_loop;
          (nested_time, timer, reads) = BenchmarkTimer_end clock timer reads;
          out = out @ [''Nested Loop (1K x 1K): '' @ str_int nested_time
                       @ '' microseconds, Sum: '' @ str_int nested_sum];
          (timer, reads) = BenchmarkTimer_start clock timer reads;
          search_count = string_search;
          (search_time, timer, reads) = BenchmarkTimer_end clock timer reads;
          out = out @ [''String Search (100K): '' @ str_int search_time
                       @ '' microseconds, Found: '' @ str_int search_count];
          (timer, reads) = BenchmarkTimer_start clock timer reads
      in case array_sorting of Inl e \<Rightarrow> (out, Some e) | Inr sort_arr \<Rightarrow>
     (let (sort_time, timer, reads) = BenchmarkTimer_end clock timer reads
      in case list_getitem sort_arr 0 of Inl e \<Rightarrow> (out, Some e) | Inr first_elem \<Rightarrow>
         case list_getitem sort_arr 9999 of Inl e \<Rightarrow> (out, Some e) | Inr last_elem \<Rightarrow>
     (let out = out @ [''Array Sorting (10K): '' @ str_int sort_time
                       @ '' microseconds, First: '' @ str_int first_elem @ '', Last: '' @ str_int last_elem];
          (timer, reads) = BenchmarkTimer_start clock timer reads
      in case recursive_functions of Inl e \<Rightarrow> (out, Some e) | Inr fib_result \<Rightarrow>
     (let (recursive_time, timer, reads) = BenchmarkTimer_end clock timer reads;
          out = out @ [''Recursive Functions (1K): '' @ str_int recursive_time
                       @ '' microseconds, Fib(20): '' @ str_int fib_result];
          (timer, reads) = BenchmarkTimer_start clock timer reads;
          mem_arr = memory_operations;
          (memory_time, timer, reads) = BenchmarkTimer_end clock timer reads;
          out = out @ [''Memory Operations (10K): '' @ str_int memory_time
                       @ '' microseconds, Final Length: '' @ str_int (DynamicArray_len mem_arr)];
          out = out @
            [CHR 0x0A # ''=== PYTHON BENCHMARK RESULTS ==='',
             ''Simple Loop (1M): '' @ str_int loop_time @ '' microseconds'',
             ''String Concatenation (10K): '' @ str_int string_time @ '' microseconds'',
             ''Array Creation (100K): '' @ str_int array_time @ '' microseconds'',
             ''Math Operations (100K): '' @ str_int math_time @ '' microseconds'',
             ''Function Calls (100K): '' @ str_int func_time @ '' microseconds'',
             ''Nested Loop (1K x 1K): '' @ str_int nested_time @ '' microseconds'',
             ''String Search (100K): '' @ str_int search_time @ '' microseconds'',
             ''Array Sorting (10K): '' @ str_int sort_time @ '' microseconds'',
             ''Recursive Functions (1K): '' @ str_int recursive_time @ '' microseconds'',
             ''Memory Operations (10K): '' @ str_int memory_time @ '' microseconds''];
          total_time = loop_time + string_time + array_time + math_time + func_time
                       + nested_time + search_time + sort_time + recursive_time + memory_time;
          out = out @ [CHR 0x0A # ''Total Benchmark Time: '' @ str_int total_time
                       @ '' microseconds'']
      in case int_truediv total_time 1000 of Inl e \<Rightarrow> (out, Some e) | Inr ms \<Rightarrow>
         (out @ [''Total Benchmark Time: '' @ format_1f ms @ '' milliseconds''], None)))))"

section \<open>Notions used in the statements\<close>

text \<open>
  The interval the \<open>k\<close>-th benchmark of a run (counting from 0) is timed over: the clock
  is read twice for each benchmark, so its readings are number \<open>2k\<close> and \<open>2k + 1\<close>.
\<close>

definition kernel_duration :: "(nat \<Rightarrow> int) \<Rightarrow> nat \<Rightarrow> int" where
  "kernel_duration clock k = clock (2 * k + 1) - clock (2 * k)"

text \<open>The sum of the ten timed intervals of a run.\<close>

definition total_time :: "(nat \<Rightarrow> int) \<Rightarrow> int" where
  "total_time clock = sum_list (map (kernel_duration clock) [0..<10])"

text \<open>
  The report form of the specification,
  \<open>"<Label>: <duration> microseconds, <AuxiliaryLabel>: <value>"\<close>, as a text, and a test
  that a line has it: somewhere in the line the text \<open>" microseconds, "\<close> occurs and the
  rest of the line after it contains \<open>": "\<close>.
\<close>

definition report_form :: "string \<Rightarrow> int \<Rightarrow> string \<Rightarrow> string \<Rightarrow> string" where
  "report_form label d aux_label aux_value =
     label @ '': '' @ str_int d @ '' microseconds, '' @ aux_label @ '': '' @ aux_value"

fun has_report_form :: "string \<Rightarrow> bool" where
  "has_report_form [] = False"
| "has_report_form (c # cs) =
     ((starts_with '' microseconds, '' (c # cs) \<and> str_contains '': '' (drop 15 (c # cs)))
      \<or> has_report_form cs)"

section \<open>Notions used in the proofs\<close>

text \<open>
  One step of the inner loop of \<open>bubble_sort\<close> when both indices are in range, and the
  invariant of its outer loop: from position \<open>k\<close> on the list is sorted, and nothing
  before \<open>k\<close> exceeds anything from \<open>k\<close> on.
\<close>

definition swap_adjacent :: "nat \<Rightarrow> int list \<Rightarrow> int list" where
  "swap_adjacent j arr = (if arr ! j > arr ! Suc j then arr[j := arr ! Suc j, Suc j := arr ! j] else arr)"

definition outer_inv :: "nat \<Rightarrow> int list \<Rightarrow> bool" where
  "outer_inv k arr \<longleftrightarrow> sorted (drop k arr) \<and> (\<forall>x \<in> set (take k arr). \<forall>y \<in> set (drop k arr). x \<le> y)"

text \<open>
  The first 24 texts of a run of \<open>main\<close> that reaches its last statement: the header,
  the ten immediate reports, the summary block and the total in microseconds.
\<close>

definition report_lines :: "(nat \<Rightarrow> int) \<Rightarrow> string list" where
  "report_lines clock =
     [''=== PYTHON STANDARDIZED BENCHMARK SUITE ==='',
      ''Testing identical operations across all languages'' @ [CHR 0x0A],
      ''Simple Loop (1M): '' @ str_int (kernel_duration clock 0) @ '' microseconds, Sum: ''
        @ str_int simple_loop,
      ''String Concatenation (10K): '' @ str_int (kernel_duration clock 1)
        @ '' microseconds, Length: '' @ str_int (snd string_concatenation),
      ''Array Creation (100K): '' @ str_int (kernel_duration clock 2)
        @ '' microseconds, Length: '' @ str_int (DynamicArray_len array_creation),
      ''Math Operations (100K): '' @ str_int (kernel_duration clock 3)
        @ '' microseconds, Result: '' @ str_int math_operations,
      ''Function Calls (100K): '' @ str_int (kernel_duration clock 4) @ '' microseconds'',
      ''Nested Loop (1K x 1K): '' @ str_int (kernel_duration clock 5)
        @ '' microseconds, Sum: '' @ str_int nested_loop,
      ''String Search (100K): '' @ str_int (kernel_duration clock 6)
        @ '' microseconds, Found: '' @ str_int string_search,
      ''Array Sorting (10K): '' @ str_int (kernel_duration clock 7)
        @ '' microseconds, First: '' @ str_int 0 @ '', Last: '' @ str_int 9999,
      ''Recursive Functions (1K): '' @ str_int (kernel_duration clock 8)
        @ '' microseconds, Fib(20): '' @ str_int 6765,
      ''Memory Operations (10K): '' @ str_int (kernel_duration clock 9)
        @ '' microseconds, Final Length: '' @ str_int (DynamicArray_len memory_operations),
      CHR 0x0A # ''=== PYTHON BENCHMARK RESULTS ==='',
      ''Simple Loop (1M): '' @ str_int (kernel_duration clock 0) @ '' microseconds'',
      ''String Concatenation (10K): '' @ str_int (kernel_duration clock 1) @ '' microseconds'',
      ''Array Creation (100K): '' @ str_int (kernel_duration clock 2) @ '' microseconds'',
      ''Math Operations (100K): '' @ str_int (kernel_duration clock 3) @ '' microseconds'',
      ''Function Calls (100K): '' @ str_int (kernel_duration clock 4) @ '' microseconds'',
      ''Nested Loop (1K x 1K): '' @ str_int (kernel_duration clock 5) @ '' microseconds'',
      ''String Search (100K): '' @ str_int (kernel_duration clock 6) @ '' microseconds'',
      ''Array Sorting (10K): '' @ str_int (kernel_duration clock 7) @ '' microseconds'',
      ''Recursive Functions (1K): '' @ str_int (kernel_duration clock 8) @ '' microseconds'',
      ''Memory Operations (10K): '' @ str_int (kernel_duration clock 9) @ '' microseconds'',
      CHR 0x0A # ''Total Benchmark Time: '' @ str_int (total_time clock) @ '' microseconds'']"

section \<open>Properties\<close>

subsection \<open>Ranges\<close>

lemma py_range_empty: "b \<le> a \<Longrightarrow> py_range a b = []"
  by (simp add: py_range_def)

lemma py_range_snoc: "a \<le> b \<Longrightarrow> py_range a (b + 1) = py_range a b @ [b]"
  using upto_rec2 [of a b] by (simp add: py_range_def)

lemma length_py_range: "length (py_range a b) = nat (b - a)"
  by (simp add: py_range_def)

lemma py_range_split: "a \<le> m \<Longrightarrow> m \<le> b \<Longrightarrow> py_range a b = py_range a m @ py_range m b"
proof (cases "a = m")
  case True
  then show ?thesis by (simp add: py_range_def)
next
  case False
  assume "a \<le> m" "m \<le> b"
  with False have "a \<le> m - 1" "m - 1 \<le> b - 1" by simp_all
  then have "[a..b - 1] = [a..m - 1] @ [m - 1 + 1..b - 1]"
    by (rule upto_split2)
  then show ?thesis by (simp add: py_range_def)
qed

lemma py_range_Cons: "a < b \<Longrightarrow> py_range a b = a # py_range (a + 1) b"
  unfolding py_range_def by (subst upto_rec1) simp_all

lemma nth_py_range: "a + int k < b \<Longrightarrow> py_range a b ! k = a + int k"
  by (simp add: py_range_def del: upto_rec_numeral)

lemma list_getitem_py_range:
  "0 \<le> i \<Longrightarrow> a + i < b \<Longrightarrow> list_getitem (py_range a b) i = Inr (a + i)"
  using nth_py_range [of a "nat i" b]
  by (simp add: list_getitem_def Let_def length_py_range)

lemma sorted_wrt_py_range: "sorted_wrt (<) (py_range a b)"
  by (simp add: py_range_def del: upto_rec_numeral)

lemma sorted_py_range: "sorted (py_range a b)"
  by (simp add: py_range_def del: upto_rec_numeral)

lemma map_diff_upto: "map (\<lambda>i. c - i) [a..b] = rev [c - b..c - a]"
proof (induction "nat (b + 1 - a)" arbitrary: b)
  case 0
  then show ?case by simp
next
  case (Suc k)
  then have ab: "a \<le> b" and k: "k = nat (b - 1 + 1 - a)" by simp_all
  have l: "[a..b] = [a..b - 1] @ [b]" using ab by (rule upto_rec2)
  have "c - b \<le> c - a" using ab by simp
  then have r: "[c - b..c - a] = (c - b) # [c - b + 1..c - a]" by (rule upto_rec1)
  have "map (\<lambda>i. c - i) [a..b - 1] = rev [c - (b - 1)..c - a]"
    using k by (rule Suc.hyps(1))
  then show ?case
    unfolding l r by (simp add: algebra_simps)
qed

subsection \<open>fibonacci\<close>



lemma fibonacci_more_frames: "fibonacci frames n = Inr v \<Longrightarrow> fibonacci (frames + k) n = Inr v"
proof (induction frames arbitrary: n v)
  case 0
  then show ?case by simp
next
  case (Suc frames)
  show ?case
  proof (cases "n \<le> 1")
    case True
    with Suc.prems show ?thesis by simp
  next
    case False
    with Suc.prems obtain a b where
      ab: "fibonacci frames (n - 1) = Inr a" "fibonacci frames (n - 2) = Inr b" "v = a + b"
      by (auto split: sum.splits)
    have "fibonacci (frames + k) (n - 1) = Inr a" "fibonacci (frames + k) (n - 2) = Inr b"
      using Suc.IH [OF ab(1)] Suc.IH [OF ab(2)] by simp_all
    with False ab(3) show ?thesis by simp
  qed
qed


lemma fibonacci_20: "fibonacci 20 20 = Inr 6765"
  by code_simp

lemma recursive_functions_eq: "recursive_functions = Inr 6765"
proof -
  have "recursion_limit - 2 = 20 + 978" by (simp add: recursion_limit_def)
  then show ?thesis
    unfolding recursive_functions_def using fibonacci_more_frames [OF fibonacci_20, of 978]
    by simp
qed




subsection \<open>Simple loop\<close>

lemma sum_loop_snoc: "sum_loop (is @ [i]) s = sum_loop is s + i"
  by (simp add: sum_loop_def)

lemma sum_loop_range: "2 * sum_loop (py_range 1 (int k + 1)) 0 = int k * (int k + 1)"
proof (induction k)
  case 0
  then show ?case by (simp add: py_range_empty sum_loop_def)
next
  case (Suc k)
  have "py_range 1 (int (Suc k) + 1) = py_range 1 (int k + 1) @ [int k + 1]"
    using py_range_snoc [of 1 "int k + 1"] by (simp add: add.commute)
  then show ?case
    using Suc.IH by (simp add: sum_loop_snoc algebra_simps)
qed

text \<open>
  C7.  The simple loop, which adds the integers of \<open>range(1, 1000001)\<close> to 0, ends with
  exactly 500000500000.  The model is a pure function of no input, so the value is the
  same on every run.
\<close>

theorem simple_loop_value: "simple_loop = 500000500000"
proof -
  have "2 * sum_loop (py_range 1 (int 1000000 + 1)) 0 = int 1000000 * (int 1000000 + 1)"
    by (rule sum_loop_range)
  then have "2 * simple_loop = 1000000 * 1000001"
    by (simp add: simple_loop_def)
  then show ?thesis by simp
qed

subsection \<open>DynamicArray.push\<close>

text \<open>
  C10.  \<open>push(v)\<close> appends \<open>v\<close> at the end, for every object and every value: the length
  grows by exactly one; \<open>v\<close> is read back at the last index; every position
  \<open>0 \<le> index < len\<close> that was valid before holds the element it held (the same element
  that a negative index \<open>-len \<le> index < 0\<close> named before is named by \<open>index - 1\<close>
  after, since Python counts negative indices from the end); every field other than
  \<open>data\<close> and \<open>capacity\<close> is untouched, and \<open>capacity\<close> stays or doubles.
\<close>

theorem push_appends_at_end:
  "DynamicArray_len (DynamicArray_push v self) = DynamicArray_len self + 1 \<and>
   DynamicArray.data (DynamicArray_push v self) = DynamicArray.data self @ [v] \<and>
   DynamicArray_getitem (DynamicArray_push v self)
     (DynamicArray_len (DynamicArray_push v self) - 1) = Inr v \<and>
   (0 \<le> index \<and> index < DynamicArray_len self \<longrightarrow>
      DynamicArray_getitem self index = Inr (DynamicArray.data self ! nat index) \<and>
      DynamicArray_getitem (DynamicArray_push v self) index = DynamicArray_getitem self index) \<and>
   (- DynamicArray_len self \<le> index \<and> index < 0 \<longrightarrow>
      DynamicArray_getitem (DynamicArray_push v self) (index - 1)
        = DynamicArray_getitem self index) \<and>
   DynamicArray.more (DynamicArray_push v self) = DynamicArray.more self \<and>
   (DynamicArray.capacity (DynamicArray_push v self) = DynamicArray.capacity self \<or>
    DynamicArray.capacity (DynamicArray_push v self) = DynamicArray.capacity self * 2)"
  by (auto simp: DynamicArray_push_def DynamicArray_len_def DynamicArray_getitem_def
      list_getitem_def Let_def nth_append)

theorem push_appends_at_end_witness:
  "DynamicArray_len (DynamicArray_push 30
      \<lparr>DynamicArray.data = [10, 20 :: int], DynamicArray.capacity = 2\<rparr>) = 3 \<and>
   DynamicArray_getitem (DynamicArray_push 30
      \<lparr>DynamicArray.data = [10, 20 :: int], DynamicArray.capacity = 2\<rparr>) 2 = Inr 30 \<and>
   (0::int) \<le> 1 \<and>
   1 < DynamicArray_len \<lparr>DynamicArray.data = [10, 20 :: int], DynamicArray.capacity = 2\<rparr> \<and>
   DynamicArray_getitem (DynamicArray_push 30
      \<lparr>DynamicArray.data = [10, 20 :: int], DynamicArray.capacity = 2\<rparr>) 1 = Inr 20 \<and>
   DynamicArray.capacity (DynamicArray_push 30
      \<lparr>DynamicArray.data = [10, 20 :: int], DynamicArray.capacity = 2\<rparr>) = 4"
  using push_appends_at_end
    [of 30 "\<lparr>DynamicArray.data = [10, 20 :: int], DynamicArray.capacity = 2\<rparr>" 1]
  by (simp add: DynamicArray_push_def DynamicArray_len_def DynamicArray_getitem_def
      list_getitem_def Let_def)

subsection \<open>Capacity bookkeeping\<close>

lemma push_capacity_mono:
  "0 \<le> DynamicArray.capacity self \<Longrightarrow>
   DynamicArray.capacity self \<le> DynamicArray.capacity (DynamicArray_push v self)"
  by (simp add: DynamicArray_push_def Let_def)

lemma push_invariant:
  "1 \<le> DynamicArray.capacity self \<Longrightarrow> DynamicArray_len self \<le> DynamicArray.capacity self \<Longrightarrow>
   1 \<le> DynamicArray.capacity (DynamicArray_push v self) \<and>
   DynamicArray_len (DynamicArray_push v self) \<le> DynamicArray.capacity (DynamicArray_push v self)"
  by (simp add: DynamicArray_push_def DynamicArray_len_def Let_def)

lemma pushes_invariant:
  "1 \<le> DynamicArray.capacity self \<Longrightarrow> DynamicArray_len self \<le> DynamicArray.capacity self \<Longrightarrow>
   1 \<le> DynamicArray.capacity (fold DynamicArray_push vs self) \<and>
   DynamicArray_len (fold DynamicArray_push vs self) \<le> DynamicArray.capacity (fold DynamicArray_push vs self)"
proof (induction vs arbitrary: self)
  case Nil
  then show ?case by simp
next
  case (Cons v vs)
  from push_invariant [OF Cons.prems, of v] Cons.IH [of "DynamicArray_push v self"]
  show ?case by simp
qed

lemma pushes_capacity_mono:
  "0 \<le> DynamicArray.capacity self \<Longrightarrow>
   DynamicArray.capacity self \<le> DynamicArray.capacity (fold DynamicArray_push vs self)"
proof (induction vs arbitrary: self)
  case Nil
  then show ?case by simp
next
  case (Cons v vs)
  have "DynamicArray.capacity self \<le> DynamicArray.capacity (DynamicArray_push v self)"
    using Cons.prems by (rule push_capacity_mono)
  moreover have "DynamicArray.capacity (DynamicArray_push v self)
      \<le> DynamicArray.capacity (fold DynamicArray_push vs (DynamicArray_push v self))"
    using Cons.prems calculation by (intro Cons.IH) linarith
  ultimately show ?case by simp
qed

lemma append_capacity_mono:
  "0 \<le> DynamicString.capacity self \<Longrightarrow>
   DynamicString.capacity self \<le> DynamicString.capacity (DynamicString_append v self)"
  by (simp add: DynamicString_append_def Let_def)

lemma appends_capacity_mono:
  "0 \<le> DynamicString.capacity self \<Longrightarrow>
   DynamicString.capacity self \<le> DynamicString.capacity (fold DynamicString_append vs self)"
proof (induction vs arbitrary: self)
  case Nil
  then show ?case by simp
next
  case (Cons v vs)
  have "DynamicString.capacity self \<le> DynamicString.capacity (DynamicString_append v self)"
    using Cons.prems by (rule append_capacity_mono)
  moreover have "DynamicString.capacity (DynamicString_append v self)
      \<le> DynamicString.capacity (fold DynamicString_append vs (DynamicString_append v self))"
    using Cons.prems calculation by (intro Cons.IH) linarith
  ultimately show ?case by simp
qed

lemma append_invariant:
  "int (length v) \<le> DynamicString.capacity self \<Longrightarrow>
   DynamicString_len self \<le> DynamicString.capacity self \<Longrightarrow>
   DynamicString.capacity self \<le> DynamicString.capacity (DynamicString_append v self) \<and>
   DynamicString_len (DynamicString_append v self) \<le> DynamicString.capacity (DynamicString_append v self)"
  by (simp add: DynamicString_append_def DynamicString_len_def Let_def)

lemma appends_invariant:
  "\<forall>v \<in> set vs. int (length v) \<le> DynamicString.capacity self \<Longrightarrow>
   DynamicString_len self \<le> DynamicString.capacity self \<Longrightarrow>
   DynamicString_len (fold DynamicString_append vs self) \<le> DynamicString.capacity (fold DynamicString_append vs self)"
proof (induction vs arbitrary: self)
  case Nil
  then show ?case by simp
next
  case (Cons v vs)
  have v: "int (length v) \<le> DynamicString.capacity self"
    using Cons.prems(1) by simp
  note step = append_invariant [OF v Cons.prems(2)]
  have "\<forall>w \<in> set vs. int (length w) \<le> DynamicString.capacity (DynamicString_append v self)"
    using Cons.prems(1) step by fastforce
  with step Cons.IH [of "DynamicString_append v self"] show ?case by simp
qed

lemma capacity_facts:
  assumes "1 \<le> c"
  shows "DynamicArray.capacity (fold DynamicArray_push vs (DynamicArray_init c))
           \<le> DynamicArray.capacity (fold DynamicArray_push (vs @ ws) (DynamicArray_init c))"
    and "DynamicArray_len (fold DynamicArray_push vs (DynamicArray_init c))
           \<le> DynamicArray.capacity (fold DynamicArray_push vs (DynamicArray_init c))"
    and "DynamicString.capacity (fold DynamicString_append fs (DynamicString_init c))
           \<le> DynamicString.capacity (fold DynamicString_append (fs @ gs) (DynamicString_init c))"
    and "(\<forall>f \<in> set fs. int (length f) \<le> c) \<longrightarrow>
         DynamicString_len (fold DynamicString_append fs (DynamicString_init c))
           \<le> DynamicString.capacity (fold DynamicString_append fs (DynamicString_init c))"
proof -
  let ?a = "DynamicArray_init c :: 'a DynamicArray"
  let ?s = "DynamicString_init c"
  have a0: "1 \<le> DynamicArray.capacity ?a" "DynamicArray_len ?a \<le> DynamicArray.capacity ?a"
    using assms by (simp_all add: DynamicArray_init_def DynamicArray_len_def)
  have s0: "DynamicString.capacity ?s = c" "DynamicString_len ?s \<le> DynamicString.capacity ?s"
    using assms by (simp_all add: DynamicString_init_def DynamicString_len_def)
  from pushes_invariant [OF a0, of vs]
  show "DynamicArray_len (fold DynamicArray_push vs ?a)
          \<le> DynamicArray.capacity (fold DynamicArray_push vs ?a)"
    by simp
  from pushes_invariant [OF a0, of vs]
  have "0 \<le> DynamicArray.capacity (fold DynamicArray_push vs ?a)" by simp
  from pushes_capacity_mono [OF this, of ws]
  show "DynamicArray.capacity (fold DynamicArray_push vs ?a)
          \<le> DynamicArray.capacity (fold DynamicArray_push (vs @ ws) ?a)"
    by simp
  have "0 \<le> DynamicString.capacity ?s" using assms s0 by simp
  from appends_capacity_mono [OF this, of fs]
  have "0 \<le> DynamicString.capacity (fold DynamicString_append fs ?s)"
    using assms s0 by simp
  from appends_capacity_mono [OF this, of gs]
  show "DynamicString.capacity (fold DynamicString_append fs ?s)
          \<le> DynamicString.capacity (fold DynamicString_append (fs @ gs) ?s)"
    by simp
  show "(\<forall>f \<in> set fs. int (length f) \<le> c) \<longrightarrow>
      DynamicString_len (fold DynamicString_append fs ?s)
        \<le> DynamicString.capacity (fold DynamicString_append fs ?s)"
    using appends_invariant [of fs ?s] s0 by simp
qed

text \<open>
  C4, as the code has it.  From a fresh container of initial capacity \<open>c \<ge> 1\<close>:
  the capacity never decreases along any sequence of pushes or of appends (whatever
  the fragments); after every push the capacity is at least the length; after every
  append the capacity is at least the length provided no fragment is longer than the
  initial capacity \<open>c\<close>.  (\<open>append\<close> doubles once per call, so one long fragment can
  leave the length above the capacity.)
\<close>

theorem capacity_monotone_and_covers:
  "1 \<le> c \<Longrightarrow>
   DynamicArray.capacity (fold DynamicArray_push vs (DynamicArray_init c))
     \<le> DynamicArray.capacity (fold DynamicArray_push (vs @ ws) (DynamicArray_init c)) \<and>
   DynamicArray_len (fold DynamicArray_push vs (DynamicArray_init c))
     \<le> DynamicArray.capacity (fold DynamicArray_push vs (DynamicArray_init c)) \<and>
   DynamicString.capacity (fold DynamicString_append fs (DynamicString_init c))
     \<le> DynamicString.capacity (fold DynamicString_append (fs @ gs) (DynamicString_init c)) \<and>
   ((\<forall>f \<in> set fs. int (length f) \<le> c) \<longrightarrow>
      DynamicString_len (fold DynamicString_append fs (DynamicString_init c))
        \<le> DynamicString.capacity (fold DynamicString_append fs (DynamicString_init c)))"
  using capacity_facts [of c] by blast

theorem capacity_monotone_and_covers_witness:
  "(1::int) \<le> 1 \<and>
   DynamicArray.capacity (fold DynamicArray_push [7, 8 :: int] (DynamicArray_init 1)) = 2 \<and>
   DynamicArray.capacity (fold DynamicArray_push ([7, 8] @ [9 :: int]) (DynamicArray_init 1)) = 4 \<and>
   DynamicArray_len (fold DynamicArray_push [7, 8 :: int] (DynamicArray_init 1)) = 2 \<and>
   list_all (\<lambda>f. int (length f) \<le> 1) [''a'', ''b''] \<and>
   DynamicString_len (fold DynamicString_append [''a'', ''b''] (DynamicString_init 1))
     \<le> DynamicString.capacity (fold DynamicString_append [''a'', ''b''] (DynamicString_init 1)) \<and>
   DynamicString.capacity (fold DynamicString_append [''a'', ''b''] (DynamicString_init 1))
     \<le> DynamicString.capacity
          (fold DynamicString_append ([''a'', ''b''] @ [''cde'']) (DynamicString_init 1))"
proof -
  have c: "(1::int) \<le> 1" by simp
  have f: "\<forall>f \<in> set [''a'', ''b'']. int (length f) \<le> 1" by simp
  show ?thesis
    using capacity_monotone_and_covers
        [OF c, of "[7, 8 :: int]" "[9]" "[''a'', ''b'']" "[''cde'']"] f
    by (simp add: DynamicArray_push_def DynamicArray_init_def DynamicArray_len_def Let_def)
qed

text \<open>
  The claim as stated fails for the text buffer: with initial capacity 1, appending the
  three-character fragment \<open>abc\<close> leaves length 3 and capacity 2.
\<close>

theorem capacity_covers_counterexample:
  "(1::int) \<le> 1 \<and>
   DynamicString_len (fold DynamicString_append [''abc''] (DynamicString_init 1)) = 3 \<and>
   DynamicString.capacity (fold DynamicString_append [''abc''] (DynamicString_init 1)) = 2 \<and>
   \<not> DynamicString_len (fold DynamicString_append [''abc''] (DynamicString_init 1))
       \<le> DynamicString.capacity (fold DynamicString_append [''abc''] (DynamicString_init 1))"
  by (simp add: DynamicString_append_def DynamicString_init_def DynamicString_len_def Let_def)

subsection \<open>Memory operations\<close>

lemma memory_body_keep:
  "DynamicArray_len a < 5000 \<Longrightarrow>
   DynamicArray_len (memory_body i a) = DynamicArray_len a + 1"
  by (simp add: memory_body_def DynamicArray_push_def DynamicArray_len_def Let_def)

lemma memory_body_reset:
  "DynamicArray_len a = 5000 \<Longrightarrow> memory_body i a = DynamicArray_init 1000"
  by (simp add: memory_body_def DynamicArray_push_def DynamicArray_len_def Let_def)

lemma memory_fold_keep:
  "DynamicArray_len a + int (length is) \<le> 5000 \<Longrightarrow>
   DynamicArray_len (fold memory_body is a) = DynamicArray_len a + int (length is)"
proof (induction "is" arbitrary: a)
  case Nil
  then show ?case by simp
next
  case (Cons i "is")
  have "DynamicArray_len a < 5000" using Cons.prems by simp
  then have "DynamicArray_len (memory_body i a) = DynamicArray_len a + 1"
    by (rule memory_body_keep)
  with Cons.IH [of "memory_body i a"] Cons.prems show ?case by simp
qed

lemma len_init: "DynamicArray_len (DynamicArray_init c) = 0"
  by (simp add: DynamicArray_len_def DynamicArray_init_def)

lemma memory_range: "py_range 1 10001 = py_range 1 5001 @ 5001 # py_range 5002 10001"
proof -
  have "py_range 1 10001 = py_range 1 5001 @ py_range 5001 10001"
    by (rule py_range_split) simp_all
  moreover have "py_range 5001 10001 = 5001 # py_range (5001 + 1) 10001"
    by (rule py_range_Cons) simp
  ultimately show ?thesis by simp
qed

lemma memory_operations_len: "DynamicArray_len memory_operations = 4999"
proof -
  let ?init = "DynamicArray_init 1000 :: int DynamicArray"
  have a: "DynamicArray_len (fold memory_body (py_range 1 5001) ?init) = 5000"
    using memory_fold_keep [of ?init "py_range 1 5001"]
    by (simp add: len_init length_py_range)
  have b: "memory_body 5001 (fold memory_body (py_range 1 5001) ?init) = ?init"
    using a by (rule memory_body_reset)
  have c: "DynamicArray_len (fold memory_body (py_range 5002 10001) ?init) = 4999"
    using memory_fold_keep [of ?init "py_range 5002 10001"]
    by (simp add: len_init length_py_range)
  show ?thesis
    unfolding memory_operations_def memory_range using b c by simp
qed

text \<open>
  C2, as the code has it.  The reset test \<open>len(mem_arr) > 5000\<close> runs after each push,
  so the container is replaced right after the 5001st push and the 4999 pushes of
  5002..10000 follow: the final length lies in \<open>[1, 5000]\<close> and is exactly 4999.
\<close>

theorem memory_operations_final_length:
  "DynamicArray_len memory_operations = 4999 \<and>
   1 \<le> DynamicArray_len memory_operations \<and> DynamicArray_len memory_operations \<le> 5000"
  by (simp add: memory_operations_len)

text \<open>The final length is in range, but it is not the 5000 the claim states.\<close>

theorem memory_operations_counterexample:
  "\<not> (1 \<le> DynamicArray_len memory_operations \<and> DynamicArray_len memory_operations \<le> 5000 \<and>
      DynamicArray_len memory_operations = 5000)"
  by (simp add: memory_operations_len)

subsection \<open>bubble\_sort\<close>

lemma for_loop_snoc:
  "for_loop (is @ [i]) body s =
     (case for_loop is body s of Inl e \<Rightarrow> Inl e | Inr s' \<Rightarrow> body i s')"
  by (induction "is" arbitrary: s) (simp_all split: sum.splits)

lemma bubble_sort_body_in_range:
  "Suc j < length arr \<Longrightarrow> bubble_sort_body (int j) arr = Inr (swap_adjacent j arr)"
  by (simp add: bubble_sort_body_def list_getitem_def list_setitem_def Let_def swap_adjacent_def
      nat_add_distrib)

lemma length_swap_adjacent: "length (swap_adjacent j arr) = length arr"
  by (simp add: swap_adjacent_def)

lemma mset_swap_adjacent: "Suc j < length arr \<Longrightarrow> mset (swap_adjacent j arr) = mset arr"
  using mset_swap [of "Suc j" arr j] by (simp add: swap_adjacent_def)

lemma drop_swap_adjacent: "drop (Suc (Suc j)) (swap_adjacent j arr) = drop (Suc (Suc j)) arr"
  by (simp add: swap_adjacent_def)

lemma swap_adjacent_max:
  assumes "Suc j < length arr" and "\<forall>p \<le> j. arr ! p \<le> arr ! j"
  shows "\<forall>p \<le> Suc j. swap_adjacent j arr ! p \<le> swap_adjacent j arr ! Suc j"
proof (intro allI impI)
  fix p assume p: "p \<le> Suc j"
  show "swap_adjacent j arr ! p \<le> swap_adjacent j arr ! Suc j"
  proof (cases "arr ! j > arr ! Suc j")
    case True
    then have eq: "swap_adjacent j arr = arr[j := arr ! Suc j, Suc j := arr ! j]"
      by (simp add: swap_adjacent_def)
    show ?thesis
      using assms p True unfolding eq
      by (cases "p = Suc j"; cases "p = j") (simp_all add: nth_list_update le_Suc_eq)
  next
    case False
    then have eq: "swap_adjacent j arr = arr" by (simp add: swap_adjacent_def)
    show ?thesis
    proof (cases "p = Suc j")
      case True then show ?thesis by (simp add: eq)
    next
      case False
      with p have "p \<le> j" by simp
      with assms(2) have "arr ! p \<le> arr ! j" by simp
      with \<open>\<not> arr ! j > arr ! Suc j\<close> show ?thesis by (simp add: eq)
    qed
  qed
qed

lemma inner_loop:
  assumes "m < length arr"
  shows "\<exists>arr'. for_loop (py_range 0 (int m)) bubble_sort_body arr = Inr arr' \<and>
           length arr' = length arr \<and> mset arr' = mset arr \<and>
           drop (Suc m) arr' = drop (Suc m) arr \<and> (\<forall>p \<le> m. arr' ! p \<le> arr' ! m)"
  using assms
proof (induction m)
  case 0
  then show ?case by (simp add: py_range_empty)
next
  case (Suc m)
  then obtain a where a: "for_loop (py_range 0 (int m)) bubble_sort_body arr = Inr a"
    "length a = length arr" "mset a = mset arr" "drop (Suc m) a = drop (Suc m) arr"
    "\<forall>p \<le> m. a ! p \<le> a ! m"
    by auto
  have r: "py_range 0 (int (Suc m)) = py_range 0 (int m) @ [int m]"
    using py_range_snoc [of 0 "int m"] by (simp add: add.commute)
  have inr: "Suc m < length a" using Suc.prems a(2) by simp
  have step: "for_loop (py_range 0 (int (Suc m))) bubble_sort_body arr = Inr (swap_adjacent m a)"
    unfolding r for_loop_snoc a(1) by (simp add: bubble_sort_body_in_range [OF inr])
  have "drop (Suc (Suc m)) (swap_adjacent m a) = drop (Suc (Suc m)) arr"
  proof -
    have "drop (Suc (Suc m)) a = drop 1 (drop (Suc m) a)" by simp
    also have "\<dots> = drop 1 (drop (Suc m) arr)" by (simp only: a(4))
    finally show ?thesis by (simp add: drop_swap_adjacent)
  qed
  with step a inr swap_adjacent_max [OF inr a(5)] show ?case
    by (simp add: length_swap_adjacent mset_swap_adjacent)
qed


lemma mset_take_of_drop:
  assumes "mset xs = mset ys" and "drop k xs = drop k ys"
  shows "mset (take k xs) = mset (take k ys)"
proof -
  have "mset (take k xs) + mset (drop k xs) = mset (take k ys) + mset (drop k ys)"
    using assms(1) by (simp flip: mset_append)
  then show ?thesis by (simp add: assms(2))
qed

lemma outer_inv_step:
  assumes inv: "outer_inv (Suc m) a" and m: "m < length a"
    and len: "length b = length a" and ms: "mset b = mset a"
    and dr: "drop (Suc m) b = drop (Suc m) a"
    and mx: "\<forall>p \<le> m. b ! p \<le> b ! m"
  shows "outer_inv m b"
proof -
  have mb: "m < length b" using m len by simp
  have "mset (take (Suc m) b) = mset (take (Suc m) a)"
    using ms dr by (rule mset_take_of_drop)
  then have st: "set (take (Suc m) b) = set (take (Suc m) a)"
    by (rule mset_eq_setD)
  have split: "drop m b = b ! m # drop (Suc m) a"
    using Cons_nth_drop_Suc [OF mb] dr by simp
  have "b ! m \<in> set (take (Suc m) b)"
    using mb by (simp add: take_Suc_conv_app_nth)
  then have bm: "b ! m \<in> set (take (Suc m) a)"
    by (simp only: st)
  have low: "\<forall>y \<in> set (drop (Suc m) a). b ! m \<le> y"
    using inv bm by (simp add: outer_inv_def)
  have srt: "sorted (drop m b)"
    using inv low by (simp add: split outer_inv_def)
  have "x \<le> y" if x: "x \<in> set (take m b)" and y: "y \<in> set (drop m b)" for x y
  proof -
    from x obtain p where p: "p < m" "x = b ! p"
      using mb by (auto simp: in_set_conv_nth)
    have xm: "x \<le> b ! m" using mx p by simp
    have "x \<in> set (take (Suc m) a)"
      using x st by (auto simp: take_Suc_conv_app_nth [OF mb])
    with inv have "\<forall>z \<in> set (drop (Suc m) a). x \<le> z"
      by (simp add: outer_inv_def)
    with y xm show ?thesis by (auto simp: split)
  qed
  with srt show ?thesis by (simp add: outer_inv_def)
qed

lemma outer_loop:
  assumes "k < length arr"
  shows "\<exists>arr'. for_loop (py_range 0 (int k))
            (\<lambda>i arr. for_loop (py_range 0 (int (length arr) - i - 1)) bubble_sort_body arr) arr
            = Inr arr' \<and>
           length arr' = length arr \<and> mset arr' = mset arr \<and> outer_inv (length arr - k) arr'"
  using assms
proof (induction k)
  case 0
  then show ?case by (simp add: py_range_empty outer_inv_def)
next
  case (Suc k)
  let ?body = "\<lambda>i arr. for_loop (py_range 0 (int (length arr) - i - 1)) bubble_sort_body arr"
  from Suc obtain a where a: "for_loop (py_range 0 (int k)) ?body arr = Inr a"
    "length a = length arr" "mset a = mset arr" "outer_inv (length arr - k) a"
    by auto
  define m where "m = length arr - Suc k"
  have m: "m < length a" "Suc m = length arr - k" "int (length a) - int k - 1 = int m"
    using Suc.prems a(2) by (simp_all add: m_def)
  from inner_loop [OF m(1)] obtain b where b:
    "for_loop (py_range 0 (int m)) bubble_sort_body a = Inr b"
    "length b = length a" "mset b = mset a" "drop (Suc m) b = drop (Suc m) a"
    "\<forall>p \<le> m. b ! p \<le> b ! m"
    by auto
  have r: "py_range 0 (int (Suc k)) = py_range 0 (int k) @ [int k]"
    using py_range_snoc [of 0 "int k"] by (simp add: add.commute)
  have run: "for_loop (py_range 0 (int (Suc k))) ?body arr = Inr b"
    unfolding r for_loop_snoc a(1) by (simp add: m(3) b(1))
  have "outer_inv m b"
    using a(4) m(1) b(2-5) unfolding m(2) [symmetric] by (rule outer_inv_step)
  with run a b show ?case by (auto simp: m_def)
qed

lemma outer_inv_1_sorted: "outer_inv (Suc 0) arr \<Longrightarrow> sorted arr"
  by (cases arr) (simp_all add: outer_inv_def)

lemma bubble_sort_sorts:
  "\<exists>arr'. bubble_sort arr = Inr arr' \<and> sorted arr' \<and> mset arr' = mset arr"
proof (cases arr)
  case Nil
  then show ?thesis by (simp add: bubble_sort_def py_range_empty)
next
  case (Cons x xs)
  then have k: "length xs < length arr" "int (length arr) - 1 = int (length xs)"
    "length arr - length xs = Suc 0"
    by simp_all
  from outer_loop [OF k(1)] show ?thesis
    unfolding bubble_sort_def k(2) k(3) by (auto dest: outer_inv_1_sorted)
qed

lemma bubble_sort_eq_sort: "bubble_sort arr = Inr (sort arr)"
proof -
  from bubble_sort_sorts [of arr] obtain arr' where
    "bubble_sort arr = Inr arr'" "sorted arr'" "mset arr' = mset arr"
    by auto
  then show ?thesis by (simp add: properties_for_sort)
qed

text \<open>
  C8.  For every list of integers \<open>bubble_sort\<close> returns (both loops run over finite
  ranges, and no index it uses is out of range, so no \<open>IndexError\<close> is raised); the list
  it leaves is in non-decreasing order and is a permutation of the list it was given.
\<close>

theorem bubble_sort_sorted_permutation:
  "\<exists>arr'. bubble_sort arr = Inr arr' \<and> sorted arr' \<and> mset arr' = mset arr"
  by (rule bubble_sort_sorts)

subsection \<open>Array sorting\<close>

lemma sort_arr_build_eq: "sort_arr_build is acc = acc @ map (\<lambda>i. 10000 - i) is"
  by (induction "is" arbitrary: acc) (simp_all add: sort_arr_build_def)

lemma sort_arr_input_eq: "sort_arr_input = rev (py_range 0 10000)"
proof -
  have "map (\<lambda>i. 10000 - i) [1..10001 - 1] = rev [10000 - (10001 - 1)..10000 - 1]"
    by (rule map_diff_upto)
  then show ?thesis
    by (simp add: sort_arr_input_def sort_arr_build_eq py_range_def del: upto_rec_numeral)
qed

lemma array_sorting_eq: "array_sorting = Inr (py_range 0 10000)"
proof -
  have "sort (rev (py_range 0 10000)) = py_range 0 10000"
    by (rule properties_for_sort) (simp_all add: sorted_py_range)
  then show ?thesis
    by (simp add: array_sorting_def sort_arr_input_eq bubble_sort_eq_sort)
qed

lemma sort_first_eq: "sort_first = Inr 0"
  using list_getitem_py_range [of 0 0 10000] by (simp add: sort_first_def array_sorting_eq)

lemma sort_last_eq: "sort_last = Inr 9999"
  using list_getitem_py_range [of 9999 0 10000] by (simp add: sort_last_def array_sorting_eq)

text \<open>
  C1, as the code has it.  The array built from \<open>10000 - i\<close> for \<open>i\<close> in 1..10000 holds
  9999 down to 0, so after the sort it holds 0 up to 9999: it has 10,000 elements, is
  strictly ascending, its first element \<open>sort_arr[0]\<close> is 0 and its last element
  \<open>sort_arr[9999]\<close> is 9999.
\<close>

theorem array_sorting_result:
  "array_sorting = Inr (py_range 0 10000) \<and>
   length (py_range 0 10000) = 10000 \<and>
   sorted_wrt (<) (py_range 0 10000) \<and>
   sort_first = Inr 0 \<and> sort_last = Inr 9999"
  by (simp add: array_sorting_eq length_py_range sorted_wrt_py_range sort_first_eq sort_last_eq)

text \<open>The first and last elements are not the 1 and 10000 the claim states.\<close>

theorem array_sorting_counterexample:
  "\<not> (sort_first = Inr 1 \<and> sort_last = Inr 10000)"
  by (simp add: sort_first_eq)

subsection \<open>The run of main\<close>

lemma timer_start_eq:
  "BenchmarkTimer_start clock self reads = (self\<lparr>start_time := clock reads\<rparr>, reads + 1)"
  by (simp add: BenchmarkTimer_start_def get_time_microseconds_def)

lemma timer_end_eq:
  "BenchmarkTimer_end clock self reads =
     (clock reads - start_time self,
      self\<lparr>end_time := clock reads, duration := clock reads - start_time self\<rparr>, reads + 1)"
  by (simp add: BenchmarkTimer_end_def get_time_microseconds_def)

lemma sorted_reads:
  "list_getitem (py_range 0 10000) 0 = Inr 0" "list_getitem (py_range 0 10000) 9999 = Inr 9999"
  using list_getitem_py_range [of 0 0 10000] list_getitem_py_range [of 9999 0 10000] by simp_all

lemma total_time_eq:
  "total_time clock =
     kernel_duration clock 0 + kernel_duration clock 1 + kernel_duration clock 2
     + kernel_duration clock 3 + kernel_duration clock 4 + kernel_duration clock 5
     + kernel_duration clock 6 + kernel_duration clock 7 + kernel_duration clock 8
     + kernel_duration clock 9"
proof -
  have "[0..<10] = [0, 1, 2, 3, 4, 5, 6, 7, 8, 9 :: nat]"
    by code_simp
  then show ?thesis
    by (simp add: total_time_def)
qed

lemma main_run:
  "main clock =
     (case int_truediv (total_time clock) 1000 of
        Inl e \<Rightarrow> (report_lines clock, Some e)
      | Inr ms \<Rightarrow>
          (report_lines clock @ [''Total Benchmark Time: '' @ format_1f ms @ '' milliseconds''],
           None))"
  unfolding main_def total_time_eq report_lines_def
  by (simp add: Let_def timer_start_eq timer_end_eq BenchmarkTimer_init_def array_sorting_eq
      sorted_reads recursive_functions_eq kernel_duration_def case_prod_beta eval_nat_numeral cong: sum.case_cong)

lemma length_report_lines: "length (report_lines clock) = 24"
  by (simp add: report_lines_def)

lemma main_nth: "k < 24 \<Longrightarrow> fst (main clock) ! k = report_lines clock ! k"
  by (simp add: main_run nth_append length_report_lines split: sum.split)

lemma main_complete:
  assumes "int_truediv (total_time clock) 1000 = Inr ms"
  shows "main clock =
    (report_lines clock @ [''Total Benchmark Time: '' @ format_1f ms @ '' milliseconds''], None)"
  by (simp add: main_run assms)

subsection \<open>Report lines\<close>

lemma digit_char_digit: "0 \<le> d \<Longrightarrow> d < 10 \<Longrightarrow> digit_char d \<in> set ''0123456789''"
proof -
  assume "0 \<le> d" "d < 10"
  then have "nat d < length ''0123456789''" by simp
  then show ?thesis unfolding digit_char_def by (rule nth_mem)
qed

lemma str_digits_chars: "0 \<le> n \<Longrightarrow> set (str_digits n) \<subseteq> set ''0123456789''"
proof (induction n rule: str_digits.induct)
  case (1 n)
  show ?case
  proof (cases "n < 10")
    case True
    with "1.prems" show ?thesis
      using digit_char_digit [of n] by (subst str_digits.simps) simp
  next
    case False
    then have ih: "set (str_digits (n div 10)) \<subseteq> set ''0123456789''"
      using "1.IH" "1.prems" by simp
    have "digit_char (n mod 10) \<in> set ''0123456789''"
      by (rule digit_char_digit) simp_all
    with ih False show ?thesis
      by (subst str_digits.simps) simp
  qed
qed

lemma str_int_chars: "set (str_int i) \<subseteq> set ''-0123456789''"
  using str_digits_chars [of i] str_digits_chars [of "- i"]
  by (auto simp: str_int_def)

lemma starts_with_append: "starts_with p (p @ s)"
  by (induction p) simp_all

lemma starts_with_hd: "starts_with (c # cs) s \<Longrightarrow> c \<in> set s"
  by (cases s) simp_all

lemma starts_with_contains: "starts_with p s \<Longrightarrow> str_contains p s"
  by (cases s) simp_all

lemma str_contains_append: "str_contains p (xs @ p @ ys)"
  by (induction xs) (simp_all add: starts_with_contains starts_with_append)

lemma has_report_form_append:
  "str_contains '': '' rest \<Longrightarrow> has_report_form (xs @ '' microseconds, '' @ rest)"
proof (induction xs)
  case Nil
  then show ?case by simp
next
  case (Cons x xs)
  then show ?case by simp
qed

lemma has_report_form_report_form: "has_report_form (report_form label d aux_label aux_value)"
proof -
  have "str_contains '': '' (aux_label @ '': '' @ aux_value)"
    by (rule str_contains_append)
  then have "has_report_form ((label @ '': '' @ str_int d) @ '' microseconds, ''
      @ (aux_label @ '': '' @ aux_value))"
    by (rule has_report_form_append)
  then show ?thesis by (simp add: report_form_def)
qed

lemma starts_with_set: "starts_with p s \<Longrightarrow> set p \<subseteq> set s"
  by (induction p s rule: starts_with.induct) auto

lemma has_report_form_comma: "has_report_form s \<Longrightarrow> CHR '','' \<in> set s"
proof (induction s)
  case Nil
  then show ?case by simp
next
  case (Cons c cs)
  from Cons.prems
  have "starts_with '' microseconds, '' (c # cs) \<or> has_report_form cs"
    by (simp only: has_report_form.simps) blast
  then show ?case
  proof
    assume "starts_with '' microseconds, '' (c # cs)"
    then have "set '' microseconds, '' \<subseteq> set (c # cs)"
      by (rule starts_with_set)
    then show ?thesis by simp
  next
    assume "has_report_form cs"
    then have "CHR '','' \<in> set cs" by (rule Cons.IH)
    then show ?thesis by simp
  qed
qed

lemma function_calls_line_no_form:
  "\<not> has_report_form (''Function Calls (100K): '' @ str_int d @ '' microseconds'')"
proof
  assume "has_report_form (''Function Calls (100K): '' @ str_int d @ '' microseconds'')"
  then have "CHR '','' \<in> set (''Function Calls (100K): '' @ str_int d @ '' microseconds'')"
    by (rule has_report_form_comma)
  then have "CHR '','' \<in> set (str_int d)" by simp
  with str_int_chars [of d] show False by auto
qed

lemma report_lines_immediate:
  "report_lines clock ! 2 = report_form ''Simple Loop (1M)'' (kernel_duration clock 0)
      ''Sum'' (str_int simple_loop)"
  "report_lines clock ! 3 = report_form ''String Concatenation (10K)'' (kernel_duration clock 1)
      ''Length'' (str_int (snd string_concatenation))"
  "report_lines clock ! 4 = report_form ''Array Creation (100K)'' (kernel_duration clock 2)
      ''Length'' (str_int (DynamicArray_len array_creation))"
  "report_lines clock ! 5 = report_form ''Math Operations (100K)'' (kernel_duration clock 3)
      ''Result'' (str_int math_operations)"
  "report_lines clock ! 6 =
      ''Function Calls (100K): '' @ str_int (kernel_duration clock 4) @ '' microseconds''"
  "report_lines clock ! 7 = report_form ''Nested Loop (1K x 1K)'' (kernel_duration clock 5)
      ''Sum'' (str_int nested_loop)"
  "report_lines clock ! 8 = report_form ''String Search (100K)'' (kernel_duration clock 6)
      ''Found'' (str_int string_search)"
  "report_lines clock ! 9 = report_form ''Array Sorting (10K)'' (kernel_duration clock 7)
      ''First'' (str_int 0 @ '', Last: '' @ str_int 9999)"
  "report_lines clock ! 10 = report_form ''Recursive Functions (1K)'' (kernel_duration clock 8)
      ''Fib(20)'' (str_int 6765)"
  "report_lines clock ! 11 = report_form ''Memory Operations (10K)'' (kernel_duration clock 9)
      ''Final Length'' (str_int (DynamicArray_len memory_operations))"
  by (simp_all add: report_lines_def report_form_def)

lemma report_lines_summary:
  "report_lines clock ! 13 = ''Simple Loop (1M): '' @ str_int (kernel_duration clock 0) @ '' microseconds''"
  "report_lines clock ! 14 = ''String Concatenation (10K): '' @ str_int (kernel_duration clock 1) @ '' microseconds''"
  "report_lines clock ! 15 = ''Array Creation (100K): '' @ str_int (kernel_duration clock 2) @ '' microseconds''"
  "report_lines clock ! 16 = ''Math Operations (100K): '' @ str_int (kernel_duration clock 3) @ '' microseconds''"
  "report_lines clock ! 17 = ''Function Calls (100K): '' @ str_int (kernel_duration clock 4) @ '' microseconds''"
  "report_lines clock ! 18 = ''Nested Loop (1K x 1K): '' @ str_int (kernel_duration clock 5) @ '' microseconds''"
  "report_lines clock ! 19 = ''String Search (100K): '' @ str_int (kernel_duration clock 6) @ '' microseconds''"
  "report_lines clock ! 20 = ''Array Sorting (10K): '' @ str_int (kernel_duration clock 7) @ '' microseconds''"
  "report_lines clock ! 21 = ''Recursive Functions (1K): '' @ str_int (kernel_duration clock 8) @ '' microseconds''"
  "report_lines clock ! 22 = ''Memory Operations (10K): '' @ str_int (kernel_duration clock 9) @ '' microseconds''"
  "report_lines clock ! 23 = CHR 0x0A # ''Total Benchmark Time: '' @ str_int (total_time clock) @ '' microseconds''"
  by (simp_all add: report_lines_def)

lemma str_int_small:
  "str_int 0 = ''0''" "str_int 1 = ''1''" "str_int 7 = ''7''" "str_int (- 2) = ''-2''"
  "str_int 1250 = ''1250''"
  by (simp_all add: str_int_def str_digits.simps digit_char_def)


lemma str_int_no_newline: "CHR 0x0A \<notin> set (str_int i)"
  using str_int_chars [of i] by auto

lemma main_immediate:
  "fst (main clock) ! 2 = report_form ''Simple Loop (1M)'' (kernel_duration clock 0)
      ''Sum'' (str_int simple_loop)"
  "fst (main clock) ! 3 = report_form ''String Concatenation (10K)'' (kernel_duration clock 1)
      ''Length'' (str_int (snd string_concatenation))"
  "fst (main clock) ! 4 = report_form ''Array Creation (100K)'' (kernel_duration clock 2)
      ''Length'' (str_int (DynamicArray_len array_creation))"
  "fst (main clock) ! 5 = report_form ''Math Operations (100K)'' (kernel_duration clock 3)
      ''Result'' (str_int math_operations)"
  "fst (main clock) ! 6 =
      ''Function Calls (100K): '' @ str_int (kernel_duration clock 4) @ '' microseconds''"
  "fst (main clock) ! 7 = report_form ''Nested Loop (1K x 1K)'' (kernel_duration clock 5)
      ''Sum'' (str_int nested_loop)"
  "fst (main clock) ! 8 = report_form ''String Search (100K)'' (kernel_duration clock 6)
      ''Found'' (str_int string_search)"
  "fst (main clock) ! 9 = report_form ''Array Sorting (10K)'' (kernel_duration clock 7)
      ''First'' (str_int 0 @ '', Last: '' @ str_int 9999)"
  "fst (main clock) ! 10 = report_form ''Recursive Functions (1K)'' (kernel_duration clock 8)
      ''Fib(20)'' (str_int 6765)"
  "fst (main clock) ! 11 = report_form ''Memory Operations (10K)'' (kernel_duration clock 9)
      ''Final Length'' (str_int (DynamicArray_len memory_operations))"
  by (simp_all add: main_nth report_lines_immediate)

lemma report_form_no_newline:
  "CHR 0x0A \<notin> set label \<Longrightarrow> CHR 0x0A \<notin> set aux_label \<Longrightarrow> CHR 0x0A \<notin> set aux_value \<Longrightarrow>
   CHR 0x0A \<notin> set (report_form label d aux_label aux_value)"
  by (simp add: report_form_def str_int_no_newline)

lemma main_immediate_forms:
  "list_all (\<lambda>k. has_report_form (fst (main clock) ! k)) [2, 3, 4, 5, 7, 8, 9, 10, 11]"
  by (simp add: main_immediate has_report_form_report_form)

lemma main_function_calls_no_form: "\<not> has_report_form (fst (main clock) ! 6)"
  by (simp only: main_immediate function_calls_line_no_form not_False_eq_True)

lemma main_immediate_no_newline:
  "list_all (\<lambda>k. CHR 0x0A \<notin> set (fst (main clock) ! k)) [2, 3, 4, 5, 6, 7, 8, 9, 10, 11]"
  by (simp add: main_immediate report_form_no_newline str_int_no_newline)

text \<open>
  C3, as the code has it.  Whatever the clock, the ten reports printed right after the
  ten benchmarks are texts number 2 to 11 of the run, each without a newline in it.
  Nine of them have the form \<open>"<Label>: <duration> microseconds, <AuxiliaryLabel>: <value>"\<close>
  (the report of Array Sorting carries two values, \<open>First\<close> and \<open>Last\<close>).  The report of
  benchmark 5, Function Calls, is \<open>"Function Calls (100K): <duration> microseconds"\<close>: it
  ends after the duration, with no auxiliary label and no value, and does not have
  the form.
\<close>

theorem immediate_reports:
  "fst (main clock) ! 2 = report_form ''Simple Loop (1M)'' (kernel_duration clock 0)
      ''Sum'' (str_int simple_loop) \<and>
   fst (main clock) ! 3 = report_form ''String Concatenation (10K)'' (kernel_duration clock 1)
      ''Length'' (str_int (snd string_concatenation)) \<and>
   fst (main clock) ! 4 = report_form ''Array Creation (100K)'' (kernel_duration clock 2)
      ''Length'' (str_int (DynamicArray_len array_creation)) \<and>
   fst (main clock) ! 5 = report_form ''Math Operations (100K)'' (kernel_duration clock 3)
      ''Result'' (str_int math_operations) \<and>
   fst (main clock) ! 6 =
      ''Function Calls (100K): '' @ str_int (kernel_duration clock 4) @ '' microseconds'' \<and>
   fst (main clock) ! 7 = report_form ''Nested Loop (1K x 1K)'' (kernel_duration clock 5)
      ''Sum'' (str_int nested_loop) \<and>
   fst (main clock) ! 8 = report_form ''String Search (100K)'' (kernel_duration clock 6)
      ''Found'' (str_int string_search) \<and>
   fst (main clock) ! 9 = report_form ''Array Sorting (10K)'' (kernel_duration clock 7)
      ''First'' (str_int 0 @ '', Last: '' @ str_int 9999) \<and>
   fst (main clock) ! 10 = report_form ''Recursive Functions (1K)'' (kernel_duration clock 8)
      ''Fib(20)'' (str_int 6765) \<and>
   fst (main clock) ! 11 = report_form ''Memory Operations (10K)'' (kernel_duration clock 9)
      ''Final Length'' (str_int (DynamicArray_len memory_operations)) \<and>
   list_all (\<lambda>k. has_report_form (fst (main clock) ! k)) [2, 3, 4, 5, 7, 8, 9, 10, 11] \<and>
   \<not> has_report_form (fst (main clock) ! 6) \<and>
   list_all (\<lambda>k. CHR 0x0A \<notin> set (fst (main clock) ! k)) [2, 3, 4, 5, 6, 7, 8, 9, 10, 11]"
  using main_immediate [of clock] main_immediate_forms [of clock]
    main_function_calls_no_form [of clock] main_immediate_no_newline [of clock]
  by (intro conjI)

text \<open>
  The claim as stated fails at benchmark 5: with the clock advancing 7 microseconds
  between readings, the report is \<open>Function Calls (100K): 7 microseconds\<close>.
\<close>

theorem immediate_reports_counterexample:
  "fst (main (\<lambda>n. 7 * int n)) ! 6 = ''Function Calls (100K): 7 microseconds'' \<and>
   \<not> has_report_form (fst (main (\<lambda>n. 7 * int n)) ! 6)"
proof -
  have "fst (main (\<lambda>n. 7 * int n)) ! 6 = ''Function Calls (100K): '' @ str_int 7 @ '' microseconds''"
    by (simp add: main_immediate kernel_duration_def)
  then show ?thesis
    using function_calls_line_no_form [of 7] by (simp add: str_int_small)
qed

subsection \<open>Timer durations\<close>

lemma timer_interval:
  "BenchmarkTimer_end clock (fst (BenchmarkTimer_start clock self reads))
      (snd (BenchmarkTimer_start clock self reads)) =
     (clock (reads + 1) - clock reads,
      self\<lparr>start_time := clock reads, end_time := clock (reads + 1),
           duration := clock (reads + 1) - clock reads\<rparr>,
      reads + 2)"
  by (simp add: timer_start_eq timer_end_eq)

lemma kernel_duration_nonneg:
  "(\<forall>n. clock n \<le> clock (Suc n)) \<Longrightarrow> 0 \<le> kernel_duration clock k"
  by (simp add: kernel_duration_def)

text \<open>
  C6, as the code has it.  \<open>get_time_microseconds\<close> returns the integer reading of the
  wall clock, on which the code puts no order.  A timer's duration is the reading at
  \<open>end()\<close> minus the reading at \<open>start()\<close>, so it is non-negative exactly when the second
  reading is not below the first; when successive readings never decrease, the duration
  of every benchmark is non-negative.
\<close>

theorem timer_duration_sign:
  "fst (get_time_microseconds clock reads) = clock reads \<and>
   fst (BenchmarkTimer_end clock (fst (BenchmarkTimer_start clock self reads))
      (snd (BenchmarkTimer_start clock self reads))) = clock (reads + 1) - clock reads \<and>
   (0 \<le> fst (BenchmarkTimer_end clock (fst (BenchmarkTimer_start clock self reads))
      (snd (BenchmarkTimer_start clock self reads))) \<longleftrightarrow> clock reads \<le> clock (reads + 1)) \<and>
   ((\<forall>n. clock n \<le> clock (Suc n)) \<longrightarrow> 0 \<le> kernel_duration clock k)"
  by (simp add: timer_interval get_time_microseconds_def kernel_duration_nonneg)

theorem timer_duration_sign_witness:
  "(\<forall>n. int n \<le> int (Suc n)) \<and> 0 \<le> kernel_duration int 3 \<and> kernel_duration int 3 = 1 \<and>
   fst (BenchmarkTimer_end int (fst (BenchmarkTimer_start int BenchmarkTimer_init 6))
      (snd (BenchmarkTimer_start int BenchmarkTimer_init 6))) = 1"
proof -
  have mono: "\<forall>n. int n \<le> int (Suc n)" by simp
  show ?thesis
    using timer_duration_sign [of int 6 BenchmarkTimer_init 3] mono
    by (simp add: kernel_duration_def)
qed

text \<open>
  The claim as stated fails when the wall clock is set back by one second between the
  two readings of a timer: the second reading is below the first, and the duration is
  minus one million microseconds.
\<close>

theorem timer_duration_counterexample:
  "fst (get_time_microseconds (\<lambda>n. if n = 0 then 1700000000000000 else 1699999999000000) 0)
     = 1700000000000000 \<and>
   fst (get_time_microseconds (\<lambda>n. if n = 0 then 1700000000000000 else 1699999999000000) 1)
     = 1699999999000000 \<and>
   \<not> fst (get_time_microseconds (\<lambda>n. if n = 0 then 1700000000000000 else 1699999999000000) 0)
     \<le> fst (get_time_microseconds (\<lambda>n. if n = 0 then 1700000000000000 else 1699999999000000) 1) \<and>
   fst (BenchmarkTimer_end (\<lambda>n. if n = 0 then 1700000000000000 else 1699999999000000)
         (fst (BenchmarkTimer_start (\<lambda>n. if n = 0 then 1700000000000000 else 1699999999000000)
            BenchmarkTimer_init 0))
         (snd (BenchmarkTimer_start (\<lambda>n. if n = 0 then 1700000000000000 else 1699999999000000)
            BenchmarkTimer_init 0))) = - 1000000 \<and>
   \<not> 0 \<le> fst (BenchmarkTimer_end (\<lambda>n. if n = 0 then 1700000000000000 else 1699999999000000)
         (fst (BenchmarkTimer_start (\<lambda>n. if n = 0 then 1700000000000000 else 1699999999000000)
            BenchmarkTimer_init 0))
         (snd (BenchmarkTimer_start (\<lambda>n. if n = 0 then 1700000000000000 else 1699999999000000)
            BenchmarkTimer_init 0)))"
  by (simp add: timer_interval get_time_microseconds_def)

subsection \<open>Total time\<close>

lemma round_half_even_error: "\<bar>of_int (round_half_even q) - q\<bar> \<le> 1 / 2"
proof -
  have "of_int \<lfloor>q\<rfloor> \<le> q" "q < of_int \<lfloor>q\<rfloor> + 1"
    by linarith+
  then show ?thesis
    by (auto simp: round_half_even_def Let_def abs_le_iff)
qed

lemma pow2_powi: "pow2 e = 2 powi e"
  by (simp add: pow2_def power_int_def inverse_eq_divide power_one_over)

lemma bit_length_nonneg: "0 \<le> bit_length n"
proof (induction n rule: bit_length.induct)
  case (1 n)
  then show ?case by (subst bit_length.simps) simp
qed

lemma bit_length_pos: "0 < n \<Longrightarrow> 0 < bit_length n"
  using bit_length_nonneg [of "n div 2"] by (subst bit_length.simps) simp


lemma bit_length_bounds:
  "0 < n \<Longrightarrow> 2 ^ nat (bit_length n - 1) \<le> n \<and> n < 2 ^ nat (bit_length n)"
proof (induction n rule: bit_length.induct)
  case (1 n)
  show ?case
  proof (cases "n = 1")
    case True
    have "bit_length 1 = 1"
      by (simp add: bit_length.simps [of 1] bit_length.simps [of 0])
    with True show ?thesis by simp
  next
    case False
    with "1.prems" have m: "0 < n div 2" by simp
    define k where "k = nat (bit_length (n div 2) - 1)"
    have bl: "bit_length (n div 2) = int k + 1"
      using bit_length_pos [OF m] by (simp add: k_def)
    have ih: "2 ^ k \<le> n div 2" "n div 2 < 2 ^ Suc k"
      using "1.IH" "1.prems" m by (simp_all add: bl nat_add_distrib)
    have n: "bit_length n = int k + 2"
      using "1.prems" by (subst bit_length.simps) (simp add: bl)
    have "2 * 2 ^ k \<le> n" using ih(1) by linarith
    moreover have "n < 2 * 2 ^ Suc k" using ih(2) by linarith
    ultimately show ?thesis
      by (simp add: n nat_add_distrib)
  qed
qed

lemma bit_length_powi:
  assumes "0 < n"
  shows "(2::rat) powi (bit_length n - 1) \<le> of_int n" and "(of_int n :: rat) < 2 powi bit_length n"
proof -
  have p: "0 < bit_length n" using assms by (rule bit_length_pos)
  have "(2::int) ^ nat (bit_length n - 1) \<le> n" "n < 2 ^ nat (bit_length n)"
    using bit_length_bounds [OF assms] by simp_all
  then have "(of_int (2 ^ nat (bit_length n - 1)) :: rat) \<le> of_int n"
    "(of_int n :: rat) < of_int (2 ^ nat (bit_length n))"
    by (simp_all only: of_int_le_iff of_int_less_iff)
  then show "(2::rat) powi (bit_length n - 1) \<le> of_int n" "(of_int n :: rat) < 2 powi bit_length n"
    using p by (simp_all add: power_int_def)
qed

lemma floor_log2_bounds:
  assumes "q \<noteq> 0"
  shows "2 powi floor_log2 q \<le> \<bar>q\<bar>" and "\<bar>q\<bar> < 2 powi (floor_log2 q + 1)"
proof -
  obtain a b where ab: "quotient_of \<bar>q\<bar> = (a, b)" by (cases "quotient_of \<bar>q\<bar>")
  then have b: "0 < b" by (rule quotient_of_denom_pos)
  have q: "\<bar>q\<bar> = of_int a / of_int b" using ab by (rule quotient_of_div)
  have bpos: "(0::rat) < of_int b" using b by simp
  have "0 < \<bar>q\<bar>" using assms by simp
  then have a: "0 < a" using bpos by (simp add: q zero_less_divide_iff)
  define A where "A = bit_length a"
  define B where "B = bit_length b"
  define e where "e = A - B"
  have ra: "(2::rat) powi (A - 1) \<le> of_int a" "(of_int a :: rat) < 2 powi A"
    unfolding A_def using a by (rule bit_length_powi)+
  have rb: "(2::rat) powi (B - 1) \<le> of_int b" "(of_int b :: rat) < 2 powi B"
    unfolding B_def using b by (rule bit_length_powi)+
  have up: "\<bar>q\<bar> < 2 powi (e + 1)"
  proof -
    have "of_int a < (2::rat) powi A" by (rule ra(2))
    also have "\<dots> = 2 powi (e + 1) * 2 powi (B - 1)"
      by (simp add: e_def flip: power_int_add)
    also have "\<dots> \<le> 2 powi (e + 1) * of_int b"
      using rb(1) by (simp add: mult_left_mono)
    finally show ?thesis using bpos by (simp add: q pos_divide_less_eq)
  qed
  have lo: "2 powi (e - 1) \<le> \<bar>q\<bar>"
  proof -
    have "2 powi (e - 1) * of_int b \<le> (2::rat) powi (e - 1) * 2 powi B"
      using rb(2) by (simp add: mult_left_mono)
    also have "\<dots> = 2 powi (A - 1)"
      by (simp add: e_def flip: power_int_add)
    also have "\<dots> \<le> of_int a" by (rule ra(1))
    finally show ?thesis using bpos by (simp add: q pos_le_divide_eq)
  qed
  have fl: "floor_log2 q = (if 2 powi e \<le> \<bar>q\<bar> then e else e - 1)"
    by (simp add: floor_log2_def ab e_def A_def B_def Let_def pow2_powi)
  show "2 powi floor_log2 q \<le> \<bar>q\<bar>"
    using lo by (simp add: fl)
  show "\<bar>q\<bar> < 2 powi (floor_log2 q + 1)"
    using up by (simp add: fl not_le)
qed


lemma round_binary64_error:
  assumes "q \<noteq> 0"
  shows "\<bar>round_binary64 q - q\<bar> \<le> 2 powi (max (floor_log2 q) (- 1022) - 53)"
proof -
  define u :: rat where "u = 2 powi (max (floor_log2 q) (- 1022) - 52)"
  have u: "0 < u" by (simp add: u_def)
  have r: "round_binary64 q = of_int (round_half_even (q / u)) * u"
    using assms by (simp add: round_binary64_def pow2_powi u_def Let_def)
  have "round_binary64 q - q = (of_int (round_half_even (q / u)) - q / u) * u"
    using u by (simp add: r field_simps)
  then have "\<bar>round_binary64 q - q\<bar> = \<bar>of_int (round_half_even (q / u)) - q / u\<bar> * u"
    using u by (simp add: abs_mult)
  also have "\<dots> \<le> 1 / 2 * u"
    using round_half_even_error [of "q / u"] u by (simp add: mult_right_mono)
  also have "\<dots> = 2 powi (max (floor_log2 q) (- 1022) - 53)"
  proof -
    define m where "m = max (floor_log2 q) (- 1022) - 53"
    have "u = 2 powi (m + 1)" by (simp add: u_def m_def)
    also have "\<dots> = 2 powi m * 2 powi 1" by (rule power_int_add) simp
    finally have "1 / 2 * u = 2 powi m" by simp
    then show ?thesis by (simp only: m_def)
  qed
  finally show ?thesis .
qed

lemma floor_log2_less:
  assumes "q \<noteq> 0" "\<bar>q\<bar> < 2 powi e"
  shows "floor_log2 q < e"
proof (rule ccontr)
  assume "\<not> floor_log2 q < e"
  then have "(2::rat) powi e \<le> 2 powi floor_log2 q"
    by (simp add: power_int_increasing)
  with floor_log2_bounds(1) [OF assms(1)] assms(2) show False by simp
qed

lemma floor_log2_ge:
  assumes "q \<noteq> 0" "2 powi e \<le> \<bar>q\<bar>"
  shows "e \<le> floor_log2 q"
proof (rule ccontr)
  assume "\<not> e \<le> floor_log2 q"
  then have "(2::rat) powi (floor_log2 q + 1) \<le> 2 powi e"
    by (simp add: power_int_increasing)
  with floor_log2_bounds(2) [OF assms(1)] assms(2) show False by simp
qed

lemma round_binary64_in_range:
  assumes "\<bar>q\<bar> < 2 powi 1000"
  shows "\<bar>round_binary64 q\<bar> < pow2 1024"
proof (cases "q = 0")
  case True
  then show ?thesis by (simp add: round_binary64_def pow2_def)
next
  case False
  define P :: rat where "P = 2 powi 1000"
  have qP: "\<bar>q\<bar> < P" using assms by (simp only: P_def)
  have "floor_log2 q < 1000" using False assms by (rule floor_log2_less)
  then have m: "max (floor_log2 q) (- 1022) - 53 \<le> 1000" by simp
  have "(2::rat) powi (max (floor_log2 q) (- 1022) - 53) \<le> 2 powi 1000"
    using m by (rule power_int_increasing) simp
  then have e: "\<bar>round_binary64 q - q\<bar> \<le> P"
    unfolding P_def by (rule order_trans [OF round_binary64_error [OF False]])
  have "P + P \<le> pow2 1024" by (simp add: P_def pow2_def)
  with qP e show ?thesis by linarith
qed

lemma round_binary64_relative:
  assumes "2 powi (- 1022) \<le> \<bar>q\<bar>"
  shows "\<bar>round_binary64 q - q\<bar> \<le> \<bar>q\<bar> / 2 ^ 53"
proof -
  have "(0::rat) < 2 powi (- 1022)" by (rule zero_less_power_int) simp
  with assms have q: "q \<noteq> 0" by auto
  define c :: rat where "c = 2 powi (- 53)"
  have c: "0 \<le> c" unfolding c_def by (rule zero_le_power_int) simp
  have "- 1022 \<le> floor_log2 q" using q assms by (rule floor_log2_ge)
  then have m: "max (floor_log2 q) (- 1022) - 53 = floor_log2 q + (- 53)" by simp
  have "(2::rat) powi (floor_log2 q + (- 53)) = 2 powi floor_log2 q * c"
    unfolding c_def by (rule power_int_add) simp
  then have "\<bar>round_binary64 q - q\<bar> \<le> 2 powi floor_log2 q * c"
    using round_binary64_error [OF q] by (simp only: m)
  also have "\<dots> \<le> \<bar>q\<bar> * c"
    using floor_log2_bounds(1) [OF q] c by (rule mult_right_mono)
  also have "\<dots> = \<bar>q\<bar> / 2 ^ 53"
    by (simp add: c_def power_int_minus field_simps)
  finally show ?thesis .
qed

lemma int_truediv_1000:
  assumes "\<bar>a\<bar> < 2 ^ 1000"
  shows "int_truediv a 1000 = Inr (round_binary64 (of_int a / 1000))"
    and "\<bar>round_binary64 (of_int a / 1000) - of_int a / 1000\<bar> \<le> \<bar>of_int a / 1000\<bar> / 2 ^ 53"
proof -
  define q :: rat where "q = of_int a / 1000"
  have "(of_int \<bar>a\<bar> :: rat) < of_int (2 ^ 1000)"
    using assms by (simp only: of_int_less_iff)
  then have a: "\<bar>of_int a :: rat\<bar> < 2 powi 1000" by simp
  have "\<bar>q\<bar> = \<bar>of_int a\<bar> / 1000" by (simp add: q_def)
  also have "\<dots> \<le> \<bar>of_int a\<bar>" by (simp add: field_simps)
  finally have "\<bar>q\<bar> < 2 powi 1000" using a by simp
  then have "\<bar>round_binary64 q\<bar> < pow2 1024" by (rule round_binary64_in_range)
  then show "int_truediv a 1000 = Inr (round_binary64 (of_int a / 1000))"
    by (simp add: int_truediv_def Let_def q_def)
  show "\<bar>round_binary64 (of_int a / 1000) - of_int a / 1000\<bar> \<le> \<bar>of_int a / 1000\<bar> / 2 ^ 53"
  proof (cases "a = 0")
    case True
    then show ?thesis by (simp add: round_binary64_def)
  next
    case False
    then have "1 \<le> \<bar>a\<bar>" by simp
    then have "(of_int 1 :: rat) \<le> of_int \<bar>a\<bar>" by (simp only: of_int_le_iff)
    then have "(1::rat) / 1000 \<le> \<bar>q\<bar>" by (simp add: q_def)
    moreover have "(2::rat) powi (- 1022) \<le> 2 powi (- 10)" by (simp add: power_int_increasing)
    moreover have "(2::rat) powi (- 10) \<le> 1 / 1000" by (simp add: power_int_minus field_simps)
    ultimately have "2 powi (- 1022) \<le> \<bar>q\<bar>" by linarith
    then show ?thesis unfolding q_def by (rule round_binary64_relative)
  qed
qed

lemma round_half_even_nonneg: "0 \<le> q \<Longrightarrow> 0 \<le> round_half_even q"
proof -
  assume "0 \<le> q"
  then have "0 \<le> \<lfloor>q\<rfloor>" by simp
  then show ?thesis by (simp add: round_half_even_def Let_def)
qed

lemma round_half_even_tie:
  "\<bar>of_int (round_half_even q) - q\<bar> < 1 / 2 \<or>
   \<bar>of_int (round_half_even q) - q\<bar> = 1 / 2 \<and> even (round_half_even q)"
proof -
  have f: "of_int \<lfloor>q\<rfloor> \<le> q" "q < of_int \<lfloor>q\<rfloor> + 1"
    by linarith+
  consider "q - of_int \<lfloor>q\<rfloor> < 1 / 2" | "1 / 2 < q - of_int \<lfloor>q\<rfloor>" | "q - of_int \<lfloor>q\<rfloor> = 1 / 2"
    by linarith
  then show ?thesis
  proof cases
    case 1
    then have "round_half_even q = \<lfloor>q\<rfloor>" by (simp add: round_half_even_def Let_def)
    with 1 f show ?thesis by simp
  next
    case 2
    then have "round_half_even q = \<lfloor>q\<rfloor> + 1" by (simp add: round_half_even_def Let_def)
    with 2 f show ?thesis by simp
  next
    case 3
    show ?thesis
    proof (cases "even \<lfloor>q\<rfloor>")
      case True
      with 3 have "round_half_even q = \<lfloor>q\<rfloor>" by (simp add: round_half_even_def Let_def)
      with 3 True show ?thesis by simp
    next
      case False
      with 3 have "round_half_even q = \<lfloor>q\<rfloor> + 1" by (simp add: round_half_even_def Let_def)
      with 3 False show ?thesis by simp
    qed
  qed
qed

lemma format_1f_rounds:
  assumes "k = round_half_even (\<bar>x\<bar> * 10)"
  shows "0 \<le> k"
    and "\<bar>of_int k / 10 - \<bar>x\<bar>\<bar> < 1 / 20 \<or> \<bar>of_int k / 10 - \<bar>x\<bar>\<bar> = 1 / 20 \<and> even k"
proof -
  show "0 \<le> k" unfolding assms by (rule round_half_even_nonneg) simp
  have "\<bar>of_int k / 10 - \<bar>x\<bar>\<bar> = \<bar>of_int k - \<bar>x\<bar> * 10\<bar> / 10"
    by (simp add: abs_if field_simps)
  then show "\<bar>of_int k / 10 - \<bar>x\<bar>\<bar> < 1 / 20 \<or> \<bar>of_int k / 10 - \<bar>x\<bar>\<bar> = 1 / 20 \<and> even k"
    using round_half_even_tie [of "\<bar>x\<bar> * 10"] unfolding assms by auto
qed

lemma format_1f_text:
  assumes "k = round_half_even (\<bar>x\<bar> * 10)"
  shows "format_1f x =
    (if x < 0 then ''-'' else []) @ str_int (k div 10) @ ''.'' @ [''0123456789'' ! nat (k mod 10)]"
proof -
  have k: "0 \<le> k" using assms by (rule format_1f_rounds)
  then have "0 \<le> k div 10" by simp
  then have a: "str_int (k div 10) = str_digits (k div 10)" by (simp add: str_int_def)
  have "k mod 10 < 10" by simp
  then have b: "str_digits (k mod 10) = [''0123456789'' ! nat (k mod 10)]"
    by (simp add: str_digits.simps [of "k mod 10"] digit_char_def)
  show ?thesis
    unfolding format_1f_def Let_def assms [symmetric] a b by simp
qed

lemma main_summary:
  "fst (main clock) ! 13 = ''Simple Loop (1M): '' @ str_int (kernel_duration clock 0) @ '' microseconds''"
  "fst (main clock) ! 14 = ''String Concatenation (10K): '' @ str_int (kernel_duration clock 1) @ '' microseconds''"
  "fst (main clock) ! 15 = ''Array Creation (100K): '' @ str_int (kernel_duration clock 2) @ '' microseconds''"
  "fst (main clock) ! 16 = ''Math Operations (100K): '' @ str_int (kernel_duration clock 3) @ '' microseconds''"
  "fst (main clock) ! 17 = ''Function Calls (100K): '' @ str_int (kernel_duration clock 4) @ '' microseconds''"
  "fst (main clock) ! 18 = ''Nested Loop (1K x 1K): '' @ str_int (kernel_duration clock 5) @ '' microseconds''"
  "fst (main clock) ! 19 = ''String Search (100K): '' @ str_int (kernel_duration clock 6) @ '' microseconds''"
  "fst (main clock) ! 20 = ''Array Sorting (10K): '' @ str_int (kernel_duration clock 7) @ '' microseconds''"
  "fst (main clock) ! 21 = ''Recursive Functions (1K): '' @ str_int (kernel_duration clock 8) @ '' microseconds''"
  "fst (main clock) ! 22 = ''Memory Operations (10K): '' @ str_int (kernel_duration clock 9) @ '' microseconds''"
  "fst (main clock) ! 23 = CHR 0x0A # ''Total Benchmark Time: '' @ str_int (total_time clock) @ '' microseconds''"
  by (simp_all add: main_nth report_lines_summary)

lemma main_last:
  assumes "int_truediv (total_time clock) 1000 = Inr ms"
  shows "snd (main clock) = None" "length (fst (main clock)) = 25"
    "fst (main clock) ! 24 = ''Total Benchmark Time: '' @ format_1f ms @ '' milliseconds''"
  by (simp_all add: main_complete [OF assms] length_report_lines nth_append)

lemma main_total_milliseconds:
  assumes "int_truediv (total_time clock) 1000 = Inr ms" and "k = round_half_even (\<bar>ms\<bar> * 10)"
  shows "fst (main clock) ! 24 =
    ''Total Benchmark Time: '' @ (if ms < 0 then ''-'' else []) @ str_int (k div 10) @ ''.''
      @ [''0123456789'' ! nat (k mod 10)] @ '' milliseconds''"
  by (simp add: main_last(3) [OF assms(1)] format_1f_text [OF assms(2)])

text \<open>
  C5.  Take a run whose total is below \<open>2 ^ 1000\<close> microseconds in absolute value.  The
  final division does not overflow, and \<open>main\<close> ends without an exception after 25
  texts.  The total is the exact integer sum of the ten durations, which are the ones
  listed in the summary block; it is printed twice, as the last two texts.  The first
  is the total in microseconds, the integer itself.  The second is the total in
  milliseconds: \<open>ms\<close>, the binary64 quotient \<open>total_time / 1000\<close>, which is within one part
  in \<open>2 ^ 53\<close> of the exact quotient, rounded to one decimal place.  With \<open>k\<close> the number
  of tenths printed, the text is the sign of \<open>ms\<close>, the integer \<open>k div 10\<close>, a point and
  the one digit \<open>k mod 10\<close>; \<open>k / 10\<close> is the multiple of one tenth nearest to \<open>\<bar>ms\<bar>\<close>, and
  the one with \<open>k\<close> even when \<open>\<bar>ms\<bar>\<close> is half way between two of them.
\<close>

theorem total_time_reported:
  assumes "\<bar>total_time clock\<bar> < 2 ^ 1000"
    and "ms = round_binary64 (of_int (total_time clock) / 1000)"
    and "k = round_half_even (\<bar>ms\<bar> * 10)"
  shows
  "total_time clock =
     kernel_duration clock 0 + kernel_duration clock 1 + kernel_duration clock 2
     + kernel_duration clock 3 + kernel_duration clock 4 + kernel_duration clock 5
     + kernel_duration clock 6 + kernel_duration clock 7 + kernel_duration clock 8
     + kernel_duration clock 9 \<and>
   snd (main clock) = None \<and> length (fst (main clock)) = 25 \<and>
   fst (main clock) ! 13 = ''Simple Loop (1M): '' @ str_int (kernel_duration clock 0) @ '' microseconds'' \<and>
   fst (main clock) ! 14 = ''String Concatenation (10K): '' @ str_int (kernel_duration clock 1) @ '' microseconds'' \<and>
   fst (main clock) ! 15 = ''Array Creation (100K): '' @ str_int (kernel_duration clock 2) @ '' microseconds'' \<and>
   fst (main clock) ! 16 = ''Math Operations (100K): '' @ str_int (kernel_duration clock 3) @ '' microseconds'' \<and>
   fst (main clock) ! 17 = ''Function Calls (100K): '' @ str_int (kernel_duration clock 4) @ '' microseconds'' \<and>
   fst (main clock) ! 18 = ''Nested Loop (1K x 1K): '' @ str_int (kernel_duration clock 5) @ '' microseconds'' \<and>
   fst (main clock) ! 19 = ''String Search (100K): '' @ str_int (kernel_duration clock 6) @ '' microseconds'' \<and>
   fst (main clock) ! 20 = ''Array Sorting (10K): '' @ str_int (kernel_duration clock 7) @ '' microseconds'' \<and>
   fst (main clock) ! 21 = ''Recursive Functions (1K): '' @ str_int (kernel_duration clock 8) @ '' microseconds'' \<and>
   fst (main clock) ! 22 = ''Memory Operations (10K): '' @ str_int (kernel_duration clock 9) @ '' microseconds'' \<and>
   fst (main clock) ! 23 = CHR 0x0A # ''Total Benchmark Time: '' @ str_int (total_time clock) @ '' microseconds'' \<and>
   fst (main clock) ! 24 =
     ''Total Benchmark Time: '' @ (if ms < 0 then ''-'' else []) @ str_int (k div 10) @ ''.''
       @ [''0123456789'' ! nat (k mod 10)] @ '' milliseconds'' \<and>
   int_truediv (total_time clock) 1000 = Inr ms \<and>
   \<bar>ms - of_int (total_time clock) / 1000\<bar> \<le> \<bar>of_int (total_time clock) / 1000\<bar> / 2 ^ 53 \<and>
   0 \<le> k \<and>
   (\<bar>of_int k / 10 - \<bar>ms\<bar>\<bar> < 1 / 20 \<or> \<bar>of_int k / 10 - \<bar>ms\<bar>\<bar> = 1 / 20 \<and> even k)"
proof -
  have d: "int_truediv (total_time clock) 1000 = Inr ms"
    unfolding assms(2) using assms(1) by (rule int_truediv_1000)
  have e: "\<bar>ms - of_int (total_time clock) / 1000\<bar> \<le> \<bar>of_int (total_time clock) / 1000\<bar> / 2 ^ 53"
    unfolding assms(2) using assms(1) by (rule int_truediv_1000)
  show ?thesis
    using total_time_eq [of clock] main_summary [of clock] main_last(1,2) [OF d]
      main_total_milliseconds [OF d assms(3)] d e format_1f_rounds [OF assms(3)]
    by (intro conjI)
qed

lemma total_time_125: "total_time (\<lambda>n. 125 * int n) = 1250"
  by (simp add: total_time_eq kernel_duration_def)

lemma round_binary64_1250: "round_binary64 (of_int 1250 / 1000) = 5 / 4"
  by code_simp

lemma round_12: "round_half_even (\<bar>5 / 4\<bar> * 10) = 12"
  by code_simp

theorem total_time_reported_witness:
  "\<bar>total_time (\<lambda>n. 125 * int n)\<bar> < 2 ^ 1000 \<and>
   round_binary64 (of_int (total_time (\<lambda>n. 125 * int n)) / 1000) = 5 / 4 \<and>
   round_half_even (\<bar>5 / 4\<bar> * 10) = 12 \<and>
   total_time (\<lambda>n. 125 * int n) = 1250 \<and>
   snd (main (\<lambda>n. 125 * int n)) = None \<and>
   fst (main (\<lambda>n. 125 * int n)) ! 23 = CHR 0x0A # ''Total Benchmark Time: 1250 microseconds'' \<and>
   fst (main (\<lambda>n. 125 * int n)) ! 24 = ''Total Benchmark Time: 1.2 milliseconds''"
proof -
  have b: "\<bar>total_time (\<lambda>n. 125 * int n)\<bar> < 2 ^ 1000"
    by (simp add: total_time_125)
  have m: "5 / 4 = round_binary64 (of_int (total_time (\<lambda>n. 125 * int n)) / 1000)"
    by (simp only: total_time_125 round_binary64_1250)
  have k: "12 = round_half_even (\<bar>5 / 4\<bar> * 10)"
    by (simp only: round_12)
  show ?thesis
    using total_time_reported [OF b m k] b m [symmetric] round_12
    by (simp add: total_time_125 str_int_small)
qed

end
